theory Spec2Isabelle
  imports Main
begin

section \<open>The pod table of the Kubernetes attributes processor\<close>

text \<open>
  A shallow embedding of \<^verbatim>\<open>processor/k8sattributesprocessor/internal/kube/client.go\<close>:
  the identifier resolver (\<^verbatim>\<open>getIdentifiersFromAssoc\<close>), the pod table
  (\<^verbatim>\<open>addOrUpdatePod\<close>, \<^verbatim>\<open>GetPod\<close>), the delete queue (\<^verbatim>\<open>forgetPod\<close>,
  \<^verbatim>\<open>appendDeleteQueue\<close>, \<^verbatim>\<open>deleteLoop\<close>), the construction of pod records
  (\<^verbatim>\<open>podFromAPI\<close>) and the watch handlers with the informers that drive them
  (\<^verbatim>\<open>New\<close>, \<^verbatim>\<open>Start\<close>).

  Mutation of the \<^verbatim>\<open>WatchClient\<close> is explicit state passing. The two mutexes are not
  modelled: every operation below is one critical section (or one handler run) of the Go code,
  taken as atomic. A Go panic is the value \<open>None\<close>.
\<close>

subsection \<open>Data\<close>

text \<open>
  An instant of \<^verbatim>\<open>time.Time\<close> and a \<^verbatim>\<open>time.Duration\<close>, both as integer counts of one
  unit of time: \<^verbatim>\<open>t.Add(d)\<close> is \<open>t + d\<close> and \<^verbatim>\<open>t.After(u)\<close> is \<open>t > u\<close>.
\<close>

type_synonym time = int

text \<open>
  \<^verbatim>\<open>AssociationSource.From\<close> is a Go string that the resolver compares with the two constants
  \<^verbatim>\<open>ConnectionSource\<close> and \<^verbatim>\<open>ResourceSource\<close>, declared outside \<^verbatim>\<open>client.go\<close>. The
  resolver only needs them to be two different strings, so the field is a datatype with one
  constructor for each and one for every other string (the zero value is \<open>OtherSource []\<close>).
\<close>

datatype FromKind = ConnectionSource | ResourceSource | OtherSource string

record AssociationSource =
  From :: FromKind
  Name :: string

record Association =
  Sources :: "AssociationSource list"

text \<open>
  Modelled from the spec: the types \<^verbatim>\<open>PodIdentifierAttribute\<close> and \<^verbatim>\<open>PodIdentifier\<close> are
  declared outside \<^verbatim>\<open>client.go\<close>. The spec describes an identifier as an "ordered fixed-size
  tuple of (source-kind, key, value)" with structural equality; the code indexes it as an array
  (\<^verbatim>\<open>ret[i]\<close>), copies it by value (\<^verbatim>\<open>retCpy := ret\<close>) and uses it as a map key. An
  attribute is a source (kind and key) with a value; an identifier is a list of attributes whose
  length is the array size \<^verbatim>\<open>PodIdentifierMaxLength\<close>, a parameter of the model (a field of
  the record \<open>ext\<close> below).
\<close>

record PodIdentifierAttribute =
  Source :: AssociationSource
  Value :: string

type_synonym PodIdentifier = "PodIdentifierAttribute list"

text \<open>
  Modelled from the spec: \<^verbatim>\<open>PodIdentifierAttributeFromSource\<close> is declared outside
  \<^verbatim>\<open>client.go\<close>; it makes the attribute of a source and a value (the triple of the spec).
\<close>

definition PodIdentifierAttributeFromSource ::
  "AssociationSource \<Rightarrow> string \<Rightarrow> PodIdentifierAttribute" where
  "PodIdentifierAttributeFromSource source v = \<lparr>Source = source, Value = v\<rparr>"

text \<open>
  Modelled from the spec: \<^verbatim>\<open>PodIdentifierAttributeFromConnection\<close> is declared outside
  \<^verbatim>\<open>client.go\<close>; it makes the attribute of the connection source, which has no key, and an
  address (\<open>(connection, "10.0.0.5")\<close> in the spec).
\<close>

definition PodIdentifierAttributeFromConnection :: "string \<Rightarrow> PodIdentifierAttribute" where
  "PodIdentifierAttributeFromConnection v =
     PodIdentifierAttributeFromSource \<lparr>From = ConnectionSource, Name = []\<rparr> v"

text \<open>
  Modelled from the spec: \<^verbatim>\<open>PodIdentifierAttributeFromResourceAttribute\<close> is declared
  outside \<^verbatim>\<open>client.go\<close>; it makes the attribute of the resource-attribute source with the
  given key, and a value (\<open>(resourceAttr, "k8s.pod.uid", "u1")\<close> in the spec).
\<close>

definition PodIdentifierAttributeFromResourceAttribute ::
  "string \<Rightarrow> string \<Rightarrow> PodIdentifierAttribute" where
  "PodIdentifierAttributeFromResourceAttribute key v =
     PodIdentifierAttributeFromSource \<lparr>From = ResourceSource, Name = key\<rparr> v"

text \<open>The zero value of an attribute, and of an identifier of \<open>n\<close> attributes.\<close>

definition zeroAttribute :: PodIdentifierAttribute where
  "zeroAttribute = \<lparr>Source = \<lparr>From = OtherSource [], Name = []\<rparr>, Value = []\<rparr>"

definition zeroPodIdentifier :: "nat \<Rightarrow> PodIdentifier" where
  "zeroPodIdentifier n = replicate n zeroAttribute"

text \<open>
  The composite literal \<^verbatim>\<open>PodIdentifier{a}\<close>: \<open>a\<close> at index 0, zero values after it.
  (Go rejects the literal at compile time when the array size is 0.)
\<close>

definition PodIdentifier1 :: "nat \<Rightarrow> PodIdentifierAttribute \<Rightarrow> PodIdentifier" where
  "PodIdentifier1 n a = a # replicate (n - 1) zeroAttribute"

text \<open>
  The attribute names the resolver switches on: the keys of the OpenTelemetry semantic
  conventions (v1.6.1).
\<close>

definition K8SNamespaceNameKey :: string where "K8SNamespaceNameKey = ''k8s.namespace.name''"
definition K8SPodNameKey :: string where "K8SPodNameKey = ''k8s.pod.name''"
definition K8SPodUIDKey :: string where "K8SPodUIDKey = ''k8s.pod.uid''"
definition HostNameKey :: string where "HostNameKey = ''host.name''"
definition ContainerIDKey :: string where "ContainerIDKey = ''container.id''"

text \<open>
  Modelled from the spec: \<^verbatim>\<open>K8sIPLabelName\<close> is declared outside \<^verbatim>\<open>client.go\<close>; it is
  the attribute name of the pod address, \<open>k8s.pod.ip\<close> in the comment at both its uses.
\<close>

definition K8sIPLabelName :: string where "K8sIPLabelName = ''k8s.pod.ip''"

text \<open>
  Containers of a pod record. \<^verbatim>\<open>ByID\<close> and \<^verbatim>\<open>ByName\<close> are Go maps; \<^verbatim>\<open>ByID\<close> is
  iterated by the resolver (\<^verbatim>\<open>maps.Keys\<close>), in an order the Go runtime picks. It is kept as an
  association list with distinct keys, whose order stands for that iteration order.
\<close>

record ContainerStatus =
  ContainerID :: string
  ImageRepoDigest :: string

record Container =
  Name :: string
  ImageName :: string
  ImageTag :: string
  ServiceInstanceID :: string
  ServiceVersion :: string
  Statuses :: "int \<rightharpoonup> ContainerStatus"

record PodContainers =
  ByID :: "(string \<times> Container) list"
  ByName :: "string \<rightharpoonup> Container"

text \<open>
  The pod record, with the fields \<^verbatim>\<open>podFromAPI\<close> fills. \<^verbatim>\<open>StartTime\<close> is a
  \<^verbatim>\<open>*metav1.Time\<close>: \<open>None\<close> is the nil pointer of a pod that has not been started.
\<close>

record Pod =
  Name :: string
  Address :: string
  PodUID :: string
  Attributes :: "string \<rightharpoonup> string"
  StartTime :: "time option"
  Ignore :: bool
  Namespace :: string
  NodeName :: string
  DeploymentUID :: string
  StatefulSetUID :: string
  HostNetwork :: bool
  Containers :: PodContainers

subsection \<open>The identifier resolver\<close>

text \<open>
  The state of the loop over the sources of one association: the identifier under construction
  \<^verbatim>\<open>ret\<close>, the position \<^verbatim>\<open>retID4containerID\<close> (\<open>-1\<close> when there is none) and
  \<^verbatim>\<open>skip\<close>.
\<close>

type_synonym assocState = "PodIdentifier \<times> int \<times> bool"

text \<open>
  The inner \<^verbatim>\<open>switch source.Name\<close>: the attribute value and the new
  \<^verbatim>\<open>retID4containerID\<close>.
\<close>

definition resourceAttr :: "Pod \<Rightarrow> nat \<Rightarrow> AssociationSource \<Rightarrow> int \<Rightarrow> string \<times> int" where
  "resourceAttr pod i source retID4containerID =
     (if AssociationSource.Name source = K8SNamespaceNameKey then (Pod.Namespace pod, retID4containerID)
      else if AssociationSource.Name source = K8SPodNameKey then (Pod.Name pod, retID4containerID)
      else if AssociationSource.Name source = K8SPodUIDKey then (PodUID pod, retID4containerID)
      else if AssociationSource.Name source = HostNameKey then (Address pod, retID4containerID)
      else if AssociationSource.Name source = K8sIPLabelName then (Address pod, retID4containerID)
      else if AssociationSource.Name source = ContainerIDKey then ([], int i)
      else (case Attributes pod (AssociationSource.Name source) of
              Some v \<Rightarrow> (v, retID4containerID)
            | None \<Rightarrow> ([], retID4containerID)))"

text \<open>
  One iteration of \<^verbatim>\<open>for i, source := range assoc.Sources\<close>. Each \<^verbatim>\<open>break\<close> of the Go
  code leaves the \<^verbatim>\<open>switch\<close> only, so the loop goes on with \<^verbatim>\<open>skip\<close> set. The
  assignment \<^verbatim>\<open>ret[i] = ...\<close> panics when \<open>i\<close> is not below the array size \<open>n\<close>.
\<close>

definition sourceStep ::
  "nat \<Rightarrow> Pod \<Rightarrow> nat \<Rightarrow> AssociationSource \<Rightarrow> assocState \<Rightarrow> assocState option" where
  "sourceStep n pod i source st =
     (case st of (ret, retID4containerID, skip) \<Rightarrow>
        (case From source of
           ConnectionSource \<Rightarrow>
             if Address pod = [] then Some (ret, retID4containerID, True)
             else if HostNetwork pod then Some (ret, retID4containerID, True)
             else if i < n
               then Some (ret[i := PodIdentifierAttributeFromSource source (Address pod)],
                          retID4containerID, skip)
               else None
         | ResourceSource \<Rightarrow>
             (case resourceAttr pod i source retID4containerID of (attr, retID4containerID') \<Rightarrow>
                if attr = [] \<and> retID4containerID' = -1 then Some (ret, retID4containerID', True)
                else if i < n
                  then Some (ret[i := PodIdentifierAttributeFromSource source attr],
                             retID4containerID', skip)
                  else None)
         | OtherSource s \<Rightarrow> Some st))"

fun sourcesLoop ::
  "nat \<Rightarrow> Pod \<Rightarrow> nat \<Rightarrow> AssociationSource list \<Rightarrow> assocState \<Rightarrow> assocState option" where
  "sourcesLoop n pod i [] st = Some st"
| "sourcesLoop n pod i (source # sources) st =
     (case sourceStep n pod i source st of
        None \<Rightarrow> None
      | Some st' \<Rightarrow> sourcesLoop n pod (Suc i) sources st')"

text \<open>
  The body of \<^verbatim>\<open>for _, assoc := range c.Associations\<close>: the identifiers one association
  adds to \<^verbatim>\<open>ids\<close>. With a container-ID position, one copy of \<^verbatim>\<open>ret\<close> per key of
  \<^verbatim>\<open>pod.Containers.ByID\<close>.
\<close>

definition containerIDAttribute :: "string \<Rightarrow> PodIdentifierAttribute" where
  "containerIDAttribute cID =
     PodIdentifierAttributeFromSource \<lparr>From = ResourceSource, Name = ContainerIDKey\<rparr> cID"

definition assocIdentifiers :: "nat \<Rightarrow> Pod \<Rightarrow> Association \<Rightarrow> PodIdentifier list option" where
  "assocIdentifiers n pod assoc =
     (case sourcesLoop n pod 0 (Sources assoc) (zeroPodIdentifier n, -1, False) of
        None \<Rightarrow> None
      | Some (ret, retID4containerID, skip) \<Rightarrow>
          Some (if \<not> skip then
                  (if retID4containerID \<noteq> -1
                   then map (\<lambda>cID. ret[nat retID4containerID := containerIDAttribute cID])
                            (map fst (ByID (Containers pod)))
                   else [ret])
                else []))"

fun assocLoop ::
  "nat \<Rightarrow> Pod \<Rightarrow> Association list \<Rightarrow> PodIdentifier list \<Rightarrow> PodIdentifier list option" where
  "assocLoop n pod [] ids = Some ids"
| "assocLoop n pod (assoc # assocs) ids =
     (case assocIdentifiers n pod assoc of
        None \<Rightarrow> None
      | Some new \<Rightarrow> assocLoop n pod assocs (ids @ new))"

text \<open>The identifiers appended after the loop ("Ensure backward compatibility").\<close>

definition podUIDFallback :: "nat \<Rightarrow> Pod \<Rightarrow> PodIdentifier list" where
  "podUIDFallback n pod =
     (if PodUID pod \<noteq> []
      then [PodIdentifier1 n (PodIdentifierAttributeFromResourceAttribute K8SPodUIDKey (PodUID pod))]
      else [])"

definition addressFallback :: "nat \<Rightarrow> Pod \<Rightarrow> PodIdentifier list" where
  "addressFallback n pod =
     (if Address pod \<noteq> [] \<and> \<not> HostNetwork pod
      then [PodIdentifier1 n (PodIdentifierAttributeFromConnection (Address pod)),
            PodIdentifier1 n (PodIdentifierAttributeFromResourceAttribute K8sIPLabelName (Address pod))]
      else [])"

definition identifiersFromAssoc :: "nat \<Rightarrow> Association list \<Rightarrow> Pod \<Rightarrow> PodIdentifier list option" where
  "identifiersFromAssoc n assocs pod =
     (case assocLoop n pod assocs [] of
        None \<Rightarrow> None
      | Some ids \<Rightarrow> Some (ids @ podUIDFallback n pod @ addressFallback n pod))"

subsection \<open>API objects and cached records\<close>

text \<open>
  The Kubernetes API objects the handlers receive, with the fields the modelled code reads.
  A namespace, node, deployment, statefulset or replicaset is its \<^verbatim>\<open>ObjectMeta\<close>; a pod adds
  the fields of \<^verbatim>\<open>Spec\<close> and \<^verbatim>\<open>Status\<close>.
\<close>

record OwnerReference =
  Kind :: string
  Name :: string
  UID :: string
  Controller :: "bool option"

record ObjectMeta =
  Name :: string
  Namespace :: string
  UID :: string
  Labels :: "string \<rightharpoonup> string"
  Annotations :: "string \<rightharpoonup> string"
  OwnerReferences :: "OwnerReference list"
  CreationTimestamp :: time

record api_Pod = ObjectMeta +
  Spec_NodeName :: string
  Spec_HostNetwork :: bool
  Status_PodIP :: string
  Status_StartTime :: "time option"

text \<open>
  The payload of a watch callback (\<^verbatim>\<open>obj any\<close>): an object of one of the six kinds, or a
  \<^verbatim>\<open>cache.DeletedFinalStateUnknown\<close> wrapping another payload.
\<close>

datatype obj =
    PodObj api_Pod
  | NamespaceObj ObjectMeta
  | NodeObj ObjectMeta
  | DeploymentObj ObjectMeta
  | StatefulSetObj ObjectMeta
  | ReplicaSetObj ObjectMeta
  | DeletedFinalStateUnknown obj

record Deployment =
  Name :: string
  UID :: string
  Attributes :: "string \<rightharpoonup> string"

record StatefulSet =
  Name :: string
  UID :: string
  Attributes :: "string \<rightharpoonup> string"

record ReplicaSet =
  Name :: string
  Namespace :: string
  UID :: string
  Deployment :: Deployment

record Namespace =
  Name :: string
  NamespaceUID :: string
  Attributes :: "string \<rightharpoonup> string"
  StartTime :: time

record Node =
  Name :: string
  NodeUID :: string
  Attributes :: "string \<rightharpoonup> string"

text \<open>
  The extraction rules, with the fields the modelled code reads. A label or annotation rule is
  kept as its \<^verbatim>\<open>From\<close> field, a string compared with constants declared outside
  \<^verbatim>\<open>client.go\<close> (\<^verbatim>\<open>MetadataFromNamespace\<close> and the like): a datatype, as for \<open>FromKind\<close>.
\<close>

datatype MetadataFrom =
    MetadataFromPod | MetadataFromNamespace | MetadataFromNode
  | MetadataFromDeployment | MetadataFromStatefulSet | MetadataFromOther string

record ExtractionRules =
  DeploymentName :: bool
  DeploymentUID :: bool
  NodeUID :: bool
  ContainerImageName :: bool
  ContainerName :: bool
  ContainerImageTag :: bool
  ContainerImageRepoDigests :: bool
  ContainerID :: bool
  ServiceVersion :: bool
  ServiceInstanceID :: bool
  Labels :: "MetadataFrom list"
  Annotations :: "MetadataFrom list"

text \<open>
  A queued delete request. The field \<^verbatim>\<open>id\<close> is written \<open>id'\<close>.
\<close>

record deleteRequest =
  id' :: PodIdentifier
  podName :: string
  ts :: time

text \<open>
  The telemetry the modelled code emits: counters, and the gauge of the pod-table size (its last
  recorded value).
\<close>

datatype counter =
    OtelsvcK8sPodAdded | OtelsvcK8sPodUpdated | OtelsvcK8sPodDeleted
  | OtelsvcK8sNamespaceAdded | OtelsvcK8sNamespaceUpdated | OtelsvcK8sNamespaceDeleted
  | OtelsvcK8sNodeAdded | OtelsvcK8sNodeUpdated | OtelsvcK8sNodeDeleted
  | OtelsvcK8sDeploymentAdded | OtelsvcK8sDeploymentUpdated | OtelsvcK8sDeploymentDeleted
  | OtelsvcK8sStatefulsetAdded | OtelsvcK8sStatefulsetUpdated | OtelsvcK8sStatefulsetDeleted
  | OtelsvcK8sReplicasetAdded | OtelsvcK8sReplicasetUpdated | OtelsvcK8sReplicasetDeleted
  | OtelsvcK8sIPLookupMiss

record TelemetryBuilder =
  counters :: "counter \<Rightarrow> int"
  OtelsvcK8sPodTableSize :: int

text \<open>
  A shared informer of the client library, as far as the code drives it: whether event handlers
  were added to it (\<^verbatim>\<open>AddEventHandler\<close>) and whether it was run (\<^verbatim>\<open>Run\<close>). A nil
  informer is \<open>None\<close>.
\<close>

record SharedInformer =
  handlers :: bool
  started :: bool

text \<open>
  The exclusion patterns. A compiled pattern (\<^verbatim>\<open>*regexp.Regexp\<close>) is kept as the set of
  strings it matches (\<^verbatim>\<open>MatchString\<close>).
\<close>

record Excludes =
  Pods :: "(string \<Rightarrow> bool) list"

record WatchClient =
  informer :: "SharedInformer option"
  namespaceInformer :: "SharedInformer option"
  nodeInformer :: "SharedInformer option"
  deploymentInformer :: "SharedInformer option"
  statefulsetInformer :: "SharedInformer option"
  replicasetInformer :: "SharedInformer option"
  deleteQueue :: "deleteRequest list"
  waitForMetadata :: bool
  Pods :: "PodIdentifier \<rightharpoonup> Pod"
  Rules :: ExtractionRules
  Associations :: "Association list"
  Exclude :: Excludes
  Namespaces :: "string \<rightharpoonup> Namespace"
  Nodes :: "string \<rightharpoonup> Node"
  Deployments :: "string \<rightharpoonup> Deployment"
  StatefulSets :: "string \<rightharpoonup> StatefulSet"
  ReplicaSets :: "string \<rightharpoonup> ReplicaSet"
  telemetryBuilder :: TelemetryBuilder

text \<open>
  What the modelled code takes from outside: the array size \<^verbatim>\<open>PodIdentifierMaxLength\<close>,
  the grace period \<^verbatim>\<open>defaultPodDeleteGracePeriod\<close> and the annotation key
  \<^verbatim>\<open>ignoreAnnotation\<close> (constants declared outside \<^verbatim>\<open>client.go\<close>); the functions
  \<^verbatim>\<open>strings.ToLower\<close> and \<^verbatim>\<open>strings.TrimSpace\<close> of the Go library; and the functions of
  \<^verbatim>\<open>client.go\<close> that compute the attributes and the containers of a record from an API
  object, the rules and the other tables of the client. No property below depends on what these
  functions compute, so each is a parameter; every theorem holds for every choice of them.
\<close>

record ext =
  PodIdentifierMaxLength :: nat
  defaultPodDeleteGracePeriod :: time
  ignoreAnnotation :: string
  ToLower :: "string \<Rightarrow> string"
  TrimSpace :: "string \<Rightarrow> string"
  extractPodAttributes :: "WatchClient \<Rightarrow> api_Pod \<Rightarrow> (string \<rightharpoonup> string)"
  extractPodContainersAttributes :: "WatchClient \<Rightarrow> api_Pod \<Rightarrow> PodContainers"
  extractNamespaceAttributes :: "WatchClient \<Rightarrow> ObjectMeta \<Rightarrow> (string \<rightharpoonup> string)"
  extractNodeAttributes :: "WatchClient \<Rightarrow> ObjectMeta \<Rightarrow> (string \<rightharpoonup> string)"
  extractDeploymentAttributes :: "WatchClient \<Rightarrow> ObjectMeta \<Rightarrow> (string \<rightharpoonup> string)"
  extractStatefulSetAttributes :: "WatchClient \<Rightarrow> ObjectMeta \<Rightarrow> (string \<rightharpoonup> string)"

subsection \<open>Telemetry and lookup\<close>

definition counterAdd :: "counter \<Rightarrow> WatchClient \<Rightarrow> WatchClient" where
  "counterAdd m c =
     c\<lparr>telemetryBuilder :=
          (telemetryBuilder c)\<lparr>counters := (counters (telemetryBuilder c))
                                   (m := counters (telemetryBuilder c) m + 1)\<rparr>\<rparr>"

text \<open>\<^verbatim>\<open>OtelsvcK8sPodTableSize.Record(ctx, int64(len(c.Pods)))\<close>.\<close>

definition recordPodTableSize :: "WatchClient \<Rightarrow> WatchClient" where
  "recordPodTableSize c =
     c\<lparr>telemetryBuilder :=
          (telemetryBuilder c)\<lparr>OtelsvcK8sPodTableSize := int (card (dom (Pods c)))\<rparr>\<rparr>"

text \<open>
  \<^verbatim>\<open>GetPod\<close> returns \<^verbatim>\<open>(*Pod, bool)\<close>: \<open>Some pod\<close> is \<^verbatim>\<open>(pod, true)\<close>, \<open>None\<close> is
  \<^verbatim>\<open>(nil, false)\<close>. The client comes back with the miss counter.
\<close>

definition GetPod :: "WatchClient \<Rightarrow> PodIdentifier \<Rightarrow> Pod option \<times> WatchClient" where
  "GetPod c identifier =
     (case Pods c identifier of
        Some pod \<Rightarrow> if Ignore pod then (None, c) else (Some pod, c)
      | None \<Rightarrow> (None, counterAdd OtelsvcK8sIPLookupMiss c))"

definition getReplicaSet :: "WatchClient \<Rightarrow> string \<Rightarrow> ReplicaSet option" where
  "getReplicaSet c uid = ReplicaSets c uid"

definition getStatefulSet :: "WatchClient \<Rightarrow> string \<Rightarrow> StatefulSet option" where
  "getStatefulSet c uid = StatefulSets c uid"

subsection \<open>Pod records\<close>

fun ownerUIDOfKind :: "string \<Rightarrow> OwnerReference list \<Rightarrow> string" where
  "ownerUIDOfKind kind [] = []"
| "ownerUIDOfKind kind (ref # refs) =
     (if Kind ref = kind then OwnerReference.UID ref else ownerUIDOfKind kind refs)"

definition getPodReplicaSetUID :: "api_Pod \<Rightarrow> string" where
  "getPodReplicaSetUID pod = ownerUIDOfKind ''ReplicaSet'' (OwnerReferences pod)"

definition getPodStatefulSetUID :: "api_Pod \<Rightarrow> string" where
  "getPodStatefulSetUID pod = ownerUIDOfKind ''StatefulSet'' (OwnerReferences pod)"

definition needContainerAttributes :: "ExtractionRules \<Rightarrow> bool" where
  "needContainerAttributes rules =
     (ContainerImageName rules \<or> ContainerName rules \<or> ContainerImageTag rules \<or>
      ContainerImageRepoDigests rules \<or> ExtractionRules.ContainerID rules \<or>
      ExtractionRules.ServiceVersion rules \<or> ExtractionRules.ServiceInstanceID rules)"

text \<open>
  A pod is ignored on the user's request: by the ignore annotation, or by an exclusion pattern
  that matches its name.
\<close>

definition shouldIgnorePod :: "ext \<Rightarrow> WatchClient \<Rightarrow> api_Pod \<Rightarrow> bool" where
  "shouldIgnorePod X c pod =
     (if (case ObjectMeta.Annotations pod (ignoreAnnotation X) of
            Some v \<Rightarrow> ToLower X (TrimSpace X v) = ''true''
          | None \<Rightarrow> False)
      then True
      else list_ex (\<lambda>excludedPod. excludedPod (ObjectMeta.Name pod)) (Excludes.Pods (Exclude c)))"

definition podFromAPI :: "ext \<Rightarrow> WatchClient \<Rightarrow> api_Pod \<Rightarrow> Pod" where
  "podFromAPI X c pod =
     (let newPod = \<lparr>Pod.Name = ObjectMeta.Name pod,
                     Address = Status_PodIP pod,
                     PodUID = ObjectMeta.UID pod,
                     Pod.Attributes = Map.empty,
                     Pod.StartTime = Status_StartTime pod,
                     Ignore = False,
                     Pod.Namespace = ObjectMeta.Namespace pod,
                     NodeName = Spec_NodeName pod,
                     Pod.DeploymentUID = [],
                     StatefulSetUID = [],
                     HostNetwork = Spec_HostNetwork pod,
                     Containers = \<lparr>ByID = [], ByName = Map.empty\<rparr>\<rparr>;
          newPod = (case getReplicaSet c (getPodReplicaSetUID pod) of
                      Some replicaset \<Rightarrow>
                        if Deployment.UID (Deployment replicaset) \<noteq> []
                        then newPod\<lparr>Pod.DeploymentUID := Deployment.UID (Deployment replicaset)\<rparr>
                        else newPod
                    | None \<Rightarrow> newPod);
          newPod = (case getStatefulSet c (getPodStatefulSetUID pod) of
                      Some statefulset \<Rightarrow> newPod\<lparr>StatefulSetUID := StatefulSet.UID statefulset\<rparr>
                    | None \<Rightarrow> newPod)
      in if shouldIgnorePod X c pod then newPod\<lparr>Ignore := True\<rparr>
         else (let newPod = newPod\<lparr>Pod.Attributes := extractPodAttributes X c pod\<rparr>
               in if needContainerAttributes (Rules c)
                  then newPod\<lparr>Containers := extractPodContainersAttributes X c pod\<rparr>
                  else newPod))"

definition getIdentifiersFromAssoc :: "ext \<Rightarrow> WatchClient \<Rightarrow> Pod \<Rightarrow> PodIdentifier list option" where
  "getIdentifiersFromAssoc X c pod =
     identifiersFromAssoc (PodIdentifierMaxLength X) (Associations c) pod"

subsection \<open>The pod table\<close>

text \<open>
  \<^verbatim>\<open>(*metav1.Time).Before\<close> of the Kubernetes library: false when either pointer is nil.
\<close>

definition Before :: "time option \<Rightarrow> time option \<Rightarrow> bool" where
  "Before t u = (case t of None \<Rightarrow> False | Some a \<Rightarrow> (case u of None \<Rightarrow> False | Some b \<Rightarrow> a < b))"

text \<open>The loop of \<^verbatim>\<open>addOrUpdatePod\<close> over the identifiers of the new record.\<close>

fun putLoop ::
  "time option \<Rightarrow> Pod \<Rightarrow> PodIdentifier list \<Rightarrow> (PodIdentifier \<rightharpoonup> Pod) \<Rightarrow> (PodIdentifier \<rightharpoonup> Pod)" where
  "putLoop startTime newPod [] pods = pods"
| "putLoop startTime newPod (i # ids) pods =
     putLoop startTime newPod ids
       (case pods i of
          Some p \<Rightarrow> if Before startTime (Pod.StartTime p) then pods else pods(i \<mapsto> newPod)
        | None \<Rightarrow> pods(i \<mapsto> newPod))"

definition addOrUpdatePod :: "ext \<Rightarrow> WatchClient \<Rightarrow> api_Pod \<Rightarrow> WatchClient option" where
  "addOrUpdatePod X c pod =
     (let newPod = podFromAPI X c pod
      in case getIdentifiersFromAssoc X c newPod of
           None \<Rightarrow> None
         | Some ids \<Rightarrow> Some (c\<lparr>Pods := putLoop (Status_StartTime pod) newPod ids (Pods c)\<rparr>))"

subsection \<open>The delete queue\<close>

text \<open>\<open>now\<close> is the reading of \<^verbatim>\<open>time.Now()\<close>.\<close>

definition appendDeleteQueue :: "time \<Rightarrow> WatchClient \<Rightarrow> PodIdentifier \<Rightarrow> string \<Rightarrow> WatchClient" where
  "appendDeleteQueue now c podID name =
     c\<lparr>deleteQueue := deleteQueue c @ [\<lparr>id' = podID, podName = name, ts = now\<rparr>]\<rparr>"

text \<open>
  The loop of \<^verbatim>\<open>forgetPod\<close>. \<open>clock k\<close> is the reading of the clock in iteration \<open>k\<close>.
\<close>

fun forgetLoop ::
  "(nat \<Rightarrow> time) \<Rightarrow> string \<Rightarrow> nat \<Rightarrow> PodIdentifier list \<Rightarrow> WatchClient \<Rightarrow> WatchClient" where
  "forgetLoop clock name k [] c = c"
| "forgetLoop clock name k (i # ids) c =
     (case GetPod c i of
        (Some p, c') \<Rightarrow>
          forgetLoop clock name (Suc k) ids
            (if Pod.Name p = name then appendDeleteQueue (clock k) c' i name else c')
      | (None, c') \<Rightarrow> forgetLoop clock name (Suc k) ids c')"

definition forgetPod :: "ext \<Rightarrow> (nat \<Rightarrow> time) \<Rightarrow> WatchClient \<Rightarrow> api_Pod \<Rightarrow> WatchClient option" where
  "forgetPod X clock c pod =
     (let podToRemove = podFromAPI X c pod
      in case getIdentifiersFromAssoc X c podToRemove of
           None \<Rightarrow> None
         | Some ids \<Rightarrow> Some (forgetLoop clock (ObjectMeta.Name pod) 0 ids c))"

text \<open>
  One wake-up of \<^verbatim>\<open>deleteLoop\<close> by its timer, at the clock reading \<open>now\<close>. First the scan
  of the queue for \<^verbatim>\<open>cutoff\<close>, then the loop over \<^verbatim>\<open>toDelete\<close>.
\<close>

fun cutoffLoop :: "time \<Rightarrow> time \<Rightarrow> nat \<Rightarrow> deleteRequest list \<Rightarrow> nat \<Rightarrow> nat" where
  "cutoffLoop now gracePeriod i [] cutoff = cutoff"
| "cutoffLoop now gracePeriod i (d # ds) cutoff =
     (if ts d + gracePeriod > now then cutoff
      else cutoffLoop now gracePeriod (Suc i) ds (i + 1))"

fun deletePods :: "deleteRequest list \<Rightarrow> (PodIdentifier \<rightharpoonup> Pod) \<Rightarrow> (PodIdentifier \<rightharpoonup> Pod)" where
  "deletePods [] pods = pods"
| "deletePods (d # ds) pods =
     deletePods ds
       (case pods (id' d) of
          Some p \<Rightarrow> if Pod.Name p = podName d then pods(id' d := None) else pods
        | None \<Rightarrow> pods)"

definition toDelete :: "time \<Rightarrow> time \<Rightarrow> deleteRequest list \<Rightarrow> deleteRequest list" where
  "toDelete now gracePeriod queue = take (cutoffLoop now gracePeriod 0 queue 0) queue"

definition deleteTick :: "time \<Rightarrow> time \<Rightarrow> WatchClient \<Rightarrow> WatchClient" where
  "deleteTick now gracePeriod c =
     (let cutoff = cutoffLoop now gracePeriod 0 (deleteQueue c) 0;
          dels = toDelete now gracePeriod (deleteQueue c);
          c = c\<lparr>deleteQueue := drop cutoff (deleteQueue c)\<rparr>;
          c = c\<lparr>Pods := deletePods dels (Pods c)\<rparr>
      in recordPodTableSize c)"

text \<open>
  \<^verbatim>\<open>deleteLoop\<close> runs until the stop channel is closed. Its run is the list of the outcomes
  of its \<^verbatim>\<open>select\<close>: the timer fired (with the clock reading then), or stop.
\<close>

datatype wake = After time | Stop

fun deleteLoop :: "time \<Rightarrow> wake list \<Rightarrow> WatchClient \<Rightarrow> WatchClient" where
  "deleteLoop gracePeriod [] c = c"
| "deleteLoop gracePeriod (Stop # ws) c = c"
| "deleteLoop gracePeriod (After now # ws) c = deleteLoop gracePeriod ws (deleteTick now gracePeriod c)"

subsection \<open>Watch handlers\<close>

definition ignoreDeletedFinalStateUnknown :: "obj \<Rightarrow> obj" where
  "ignoreDeletedFinalStateUnknown ob =
     (case ob of DeletedFinalStateUnknown inner \<Rightarrow> inner | _ \<Rightarrow> ob)"

text \<open>
  A payload of another type is logged and dropped; the counter and the gauge are written
  either way.
\<close>

definition handlePodAdd :: "ext \<Rightarrow> WatchClient \<Rightarrow> obj \<Rightarrow> WatchClient option" where
  "handlePodAdd X c ob =
     (let c = counterAdd OtelsvcK8sPodAdded c
      in case (case ob of PodObj pod \<Rightarrow> addOrUpdatePod X c pod | _ \<Rightarrow> Some c) of
           None \<Rightarrow> None
         | Some c \<Rightarrow> Some (recordPodTableSize c))"

definition handlePodUpdate :: "ext \<Rightarrow> WatchClient \<Rightarrow> obj \<Rightarrow> obj \<Rightarrow> WatchClient option" where
  "handlePodUpdate X c oldPod newPod =
     (let c = counterAdd OtelsvcK8sPodUpdated c
      in case (case newPod of PodObj pod \<Rightarrow> addOrUpdatePod X c pod | _ \<Rightarrow> Some c) of
           None \<Rightarrow> None
         | Some c \<Rightarrow> Some (recordPodTableSize c))"

definition handlePodDelete :: "ext \<Rightarrow> (nat \<Rightarrow> time) \<Rightarrow> WatchClient \<Rightarrow> obj \<Rightarrow> WatchClient option" where
  "handlePodDelete X clock c ob =
     (let c = counterAdd OtelsvcK8sPodDeleted c
      in case (case ignoreDeletedFinalStateUnknown ob of
                 PodObj pod \<Rightarrow> forgetPod X clock c pod
               | _ \<Rightarrow> Some c) of
           None \<Rightarrow> None
         | Some c \<Rightarrow> Some (recordPodTableSize c))"

definition addOrUpdateNamespace :: "ext \<Rightarrow> WatchClient \<Rightarrow> ObjectMeta \<Rightarrow> WatchClient" where
  "addOrUpdateNamespace X c namespace =
     (let newNamespace = \<lparr>Namespace.Name = ObjectMeta.Name namespace,
                           NamespaceUID = ObjectMeta.UID namespace,
                           Namespace.Attributes = extractNamespaceAttributes X c namespace,
                           Namespace.StartTime = CreationTimestamp namespace\<rparr>
      in if ObjectMeta.Name namespace \<noteq> []
         then c\<lparr>Namespaces := (Namespaces c)(ObjectMeta.Name namespace \<mapsto> newNamespace)\<rparr>
         else c)"

definition handleNamespaceAdd :: "ext \<Rightarrow> WatchClient \<Rightarrow> obj \<Rightarrow> WatchClient" where
  "handleNamespaceAdd X c ob =
     (let c = counterAdd OtelsvcK8sNamespaceAdded c
      in case ob of NamespaceObj namespace \<Rightarrow> addOrUpdateNamespace X c namespace | _ \<Rightarrow> c)"

definition handleNamespaceUpdate :: "ext \<Rightarrow> WatchClient \<Rightarrow> obj \<Rightarrow> obj \<Rightarrow> WatchClient" where
  "handleNamespaceUpdate X c oldNamespace newNamespace =
     (let c = counterAdd OtelsvcK8sNamespaceUpdated c
      in case newNamespace of NamespaceObj namespace \<Rightarrow> addOrUpdateNamespace X c namespace | _ \<Rightarrow> c)"

definition handleNamespaceDelete :: "WatchClient \<Rightarrow> obj \<Rightarrow> WatchClient" where
  "handleNamespaceDelete c ob =
     (let c = counterAdd OtelsvcK8sNamespaceDeleted c
      in case ignoreDeletedFinalStateUnknown ob of
           NamespaceObj namespace \<Rightarrow>
             (case Namespaces c (ObjectMeta.Name namespace) of
                Some ns \<Rightarrow> c\<lparr>Namespaces := (Namespaces c)(Namespace.Name ns := None)\<rparr>
              | None \<Rightarrow> c)
         | _ \<Rightarrow> c)"

definition addOrUpdateNode :: "ext \<Rightarrow> WatchClient \<Rightarrow> ObjectMeta \<Rightarrow> WatchClient" where
  "addOrUpdateNode X c node =
     (let newNode = \<lparr>Node.Name = ObjectMeta.Name node,
                      NodeUID = ObjectMeta.UID node,
                      Node.Attributes = extractNodeAttributes X c node\<rparr>
      in if ObjectMeta.Name node \<noteq> []
         then c\<lparr>Nodes := (Nodes c)(ObjectMeta.Name node \<mapsto> newNode)\<rparr>
         else c)"

definition handleNodeAdd :: "ext \<Rightarrow> WatchClient \<Rightarrow> obj \<Rightarrow> WatchClient" where
  "handleNodeAdd X c ob =
     (let c = counterAdd OtelsvcK8sNodeAdded c
      in case ob of NodeObj node \<Rightarrow> addOrUpdateNode X c node | _ \<Rightarrow> c)"

definition handleNodeUpdate :: "ext \<Rightarrow> WatchClient \<Rightarrow> obj \<Rightarrow> obj \<Rightarrow> WatchClient" where
  "handleNodeUpdate X c oldNode newNode =
     (let c = counterAdd OtelsvcK8sNodeUpdated c
      in case newNode of NodeObj node \<Rightarrow> addOrUpdateNode X c node | _ \<Rightarrow> c)"

definition handleNodeDelete :: "WatchClient \<Rightarrow> obj \<Rightarrow> WatchClient" where
  "handleNodeDelete c ob =
     (let c = counterAdd OtelsvcK8sNodeDeleted c
      in case ignoreDeletedFinalStateUnknown ob of
           NodeObj node \<Rightarrow>
             (case Nodes c (ObjectMeta.Name node) of
                Some n \<Rightarrow> c\<lparr>Nodes := (Nodes c)(Node.Name n := None)\<rparr>
              | None \<Rightarrow> c)
         | _ \<Rightarrow> c)"

definition addOrUpdateDeployment :: "ext \<Rightarrow> WatchClient \<Rightarrow> ObjectMeta \<Rightarrow> WatchClient" where
  "addOrUpdateDeployment X c deployment =
     (let newDeployment = \<lparr>Deployment.Name = ObjectMeta.Name deployment,
                            Deployment.UID = ObjectMeta.UID deployment,
                            Deployment.Attributes = extractDeploymentAttributes X c deployment\<rparr>
      in if ObjectMeta.UID deployment \<noteq> []
         then c\<lparr>Deployments := (Deployments c)(ObjectMeta.UID deployment \<mapsto> newDeployment)\<rparr>
         else c)"

definition handleDeploymentAdd :: "ext \<Rightarrow> WatchClient \<Rightarrow> obj \<Rightarrow> WatchClient" where
  "handleDeploymentAdd X c ob =
     (let c = counterAdd OtelsvcK8sDeploymentAdded c
      in case ob of DeploymentObj deployment \<Rightarrow> addOrUpdateDeployment X c deployment | _ \<Rightarrow> c)"

definition handleDeploymentUpdate :: "ext \<Rightarrow> WatchClient \<Rightarrow> obj \<Rightarrow> obj \<Rightarrow> WatchClient" where
  "handleDeploymentUpdate X c oldDeployment newDeployment =
     (let c = counterAdd OtelsvcK8sDeploymentUpdated c
      in case newDeployment of
           DeploymentObj deployment \<Rightarrow> addOrUpdateDeployment X c deployment
         | _ \<Rightarrow> c)"

definition handleDeploymentDelete :: "WatchClient \<Rightarrow> obj \<Rightarrow> WatchClient" where
  "handleDeploymentDelete c ob =
     (let c = counterAdd OtelsvcK8sDeploymentDeleted c
      in case ignoreDeletedFinalStateUnknown ob of
           DeploymentObj deployment \<Rightarrow>
             (case Deployments c (ObjectMeta.UID deployment) of
                Some n \<Rightarrow> c\<lparr>Deployments := (Deployments c)(Deployment.UID n := None)\<rparr>
              | None \<Rightarrow> c)
         | _ \<Rightarrow> c)"

definition addOrUpdateStatefulSet :: "ext \<Rightarrow> WatchClient \<Rightarrow> ObjectMeta \<Rightarrow> WatchClient" where
  "addOrUpdateStatefulSet X c statefulset =
     (let newStatefulSet = \<lparr>StatefulSet.Name = ObjectMeta.Name statefulset,
                             StatefulSet.UID = ObjectMeta.UID statefulset,
                             StatefulSet.Attributes = extractStatefulSetAttributes X c statefulset\<rparr>
      in if ObjectMeta.UID statefulset \<noteq> []
         then c\<lparr>StatefulSets := (StatefulSets c)(ObjectMeta.UID statefulset \<mapsto> newStatefulSet)\<rparr>
         else c)"

definition handleStatefulSetAdd :: "ext \<Rightarrow> WatchClient \<Rightarrow> obj \<Rightarrow> WatchClient" where
  "handleStatefulSetAdd X c ob =
     (let c = counterAdd OtelsvcK8sStatefulsetAdded c
      in case ob of StatefulSetObj statefulset \<Rightarrow> addOrUpdateStatefulSet X c statefulset | _ \<Rightarrow> c)"

definition handleStatefulSetUpdate :: "ext \<Rightarrow> WatchClient \<Rightarrow> obj \<Rightarrow> obj \<Rightarrow> WatchClient" where
  "handleStatefulSetUpdate X c oldStatefulSet newStatefulSet =
     (let c = counterAdd OtelsvcK8sStatefulsetUpdated c
      in case newStatefulSet of
           StatefulSetObj statefulset \<Rightarrow> addOrUpdateStatefulSet X c statefulset
         | _ \<Rightarrow> c)"

definition handleStatefulSetDelete :: "WatchClient \<Rightarrow> obj \<Rightarrow> WatchClient" where
  "handleStatefulSetDelete c ob =
     (let c = counterAdd OtelsvcK8sStatefulsetDeleted c
      in case ignoreDeletedFinalStateUnknown ob of
           StatefulSetObj statefulset \<Rightarrow>
             (case StatefulSets c (ObjectMeta.UID statefulset) of
                Some n \<Rightarrow> c\<lparr>StatefulSets := (StatefulSets c)(StatefulSet.UID n := None)\<rparr>
              | None \<Rightarrow> c)
         | _ \<Rightarrow> c)"

text \<open>
  The owning deployment of a replicaset: the first owner reference of kind Deployment that is
  the controller; the zero value when there is none.
\<close>

fun owningDeployment :: "OwnerReference list \<Rightarrow> Deployment" where
  "owningDeployment [] = \<lparr>Deployment.Name = [], Deployment.UID = [], Deployment.Attributes = Map.empty\<rparr>"
| "owningDeployment (ownerReference # refs) =
     (if Kind ownerReference = ''Deployment'' \<and> Controller ownerReference = Some True
      then \<lparr>Deployment.Name = OwnerReference.Name ownerReference,
            Deployment.UID = OwnerReference.UID ownerReference,
            Deployment.Attributes = Map.empty\<rparr>
      else owningDeployment refs)"

definition addOrUpdateReplicaSet :: "WatchClient \<Rightarrow> ObjectMeta \<Rightarrow> WatchClient" where
  "addOrUpdateReplicaSet c replicaset =
     (let newReplicaSet = \<lparr>ReplicaSet.Name = ObjectMeta.Name replicaset,
                            ReplicaSet.Namespace = ObjectMeta.Namespace replicaset,
                            ReplicaSet.UID = ObjectMeta.UID replicaset,
                            Deployment = owningDeployment (OwnerReferences replicaset)\<rparr>
      in if ObjectMeta.UID replicaset \<noteq> []
         then c\<lparr>ReplicaSets := (ReplicaSets c)(ObjectMeta.UID replicaset \<mapsto> newReplicaSet)\<rparr>
         else c)"

definition handleReplicaSetAdd :: "WatchClient \<Rightarrow> obj \<Rightarrow> WatchClient" where
  "handleReplicaSetAdd c ob =
     (let c = counterAdd OtelsvcK8sReplicasetAdded c
      in case ob of ReplicaSetObj replicaset \<Rightarrow> addOrUpdateReplicaSet c replicaset | _ \<Rightarrow> c)"

definition handleReplicaSetUpdate :: "WatchClient \<Rightarrow> obj \<Rightarrow> obj \<Rightarrow> WatchClient" where
  "handleReplicaSetUpdate c oldRS newRS =
     (let c = counterAdd OtelsvcK8sReplicasetUpdated c
      in case newRS of ReplicaSetObj replicaset \<Rightarrow> addOrUpdateReplicaSet c replicaset | _ \<Rightarrow> c)"

definition handleReplicaSetDelete :: "WatchClient \<Rightarrow> obj \<Rightarrow> WatchClient" where
  "handleReplicaSetDelete c ob =
     (let c = counterAdd OtelsvcK8sReplicasetDeleted c
      in case ignoreDeletedFinalStateUnknown ob of
           ReplicaSetObj replicaset \<Rightarrow>
             c\<lparr>ReplicaSets := (ReplicaSets c)(ObjectMeta.UID replicaset := None)\<rparr>
         | _ \<Rightarrow> c)"

subsection \<open>Construction and start-up\<close>

type_synonym error = string

text \<open>
  The outcomes of the external calls of \<^verbatim>\<open>New\<close>: the error each returns, if any.
\<close>

record NewDeps =
  NewTelemetryBuilder_err :: "error option"
  newClientSet_err :: "error option"
  selectorsFromFilters_err :: "error option"
  SetTransform_err :: "error option"
  replicasetSetTransform_err :: "error option"

definition newInformer :: SharedInformer where
  "newInformer = \<lparr>handlers = False, started = False\<rparr>"

definition extractNodeLabelsAnnotations :: "WatchClient \<Rightarrow> bool" where
  "extractNodeLabelsAnnotations c =
     (list_ex (\<lambda>r. r = MetadataFromNode) (ExtractionRules.Labels (Rules c)) \<or>
      list_ex (\<lambda>r. r = MetadataFromNode) (ExtractionRules.Annotations (Rules c)))"

definition extractDeploymentLabelsAnnotations :: "WatchClient \<Rightarrow> bool" where
  "extractDeploymentLabelsAnnotations c =
     (list_ex (\<lambda>r. r = MetadataFromDeployment) (ExtractionRules.Labels (Rules c)) \<or>
      list_ex (\<lambda>r. r = MetadataFromDeployment) (ExtractionRules.Annotations (Rules c)))"

definition extractStatefulSetLabelsAnnotations :: "WatchClient \<Rightarrow> bool" where
  "extractStatefulSetLabelsAnnotations c =
     (list_ex (\<lambda>r. r = MetadataFromStatefulSet) (ExtractionRules.Labels (Rules c)) \<or>
      list_ex (\<lambda>r. r = MetadataFromStatefulSet) (ExtractionRules.Annotations (Rules c)))"

definition extractNodeUID :: "WatchClient \<Rightarrow> bool" where
  "extractNodeUID c = NodeUID (Rules c)"

text \<open>
  \<^verbatim>\<open>New\<close>. The namespace informer is created whatever provider is chosen for it; the
  replicaset informer only for the two deployment rules.
\<close>

definition New ::
  "NewDeps \<Rightarrow> ExtractionRules \<Rightarrow> Association list \<Rightarrow> Excludes \<Rightarrow> bool \<Rightarrow> error + WatchClient" where
  "New deps rules associations exclude waitForMetadata' =
     (case NewTelemetryBuilder_err deps of Some err \<Rightarrow> Inl err | None \<Rightarrow>
      let c = \<lparr>informer = None, namespaceInformer = None, nodeInformer = None,
               deploymentInformer = None, statefulsetInformer = None,
               replicasetInformer = None,
               deleteQueue = [], waitForMetadata = waitForMetadata',
               Pods = Map.empty, Rules = rules, Associations = associations, Exclude = exclude,
               Namespaces = Map.empty, Nodes = Map.empty, Deployments = Map.empty,
               StatefulSets = Map.empty, ReplicaSets = Map.empty,
               telemetryBuilder = \<lparr>counters = (\<lambda>m. 0), OtelsvcK8sPodTableSize = 0\<rparr>\<rparr>
      in case newClientSet_err deps of Some err \<Rightarrow> Inl err | None \<Rightarrow>
         case selectorsFromFilters_err deps of Some err \<Rightarrow> Inl err | None \<Rightarrow>
         let c = c\<lparr>informer := Some newInformer\<rparr>
         in case SetTransform_err deps of Some err \<Rightarrow> Inl err | None \<Rightarrow>
            let c = c\<lparr>namespaceInformer := Some newInformer\<rparr>
            in case (if ExtractionRules.DeploymentName rules \<or> ExtractionRules.DeploymentUID rules
                     then (let c = c\<lparr>replicasetInformer := Some newInformer\<rparr>
                           in case replicasetSetTransform_err deps of
                                Some err \<Rightarrow> Inl err
                              | None \<Rightarrow> Inr c)
                     else Inr c) of
                 Inl err \<Rightarrow> Inl err
               | Inr c \<Rightarrow>
                   let c = (if extractNodeLabelsAnnotations c \<or> extractNodeUID c
                            then c\<lparr>nodeInformer := Some newInformer\<rparr> else c);
                       c = (if extractDeploymentLabelsAnnotations c
                            then c\<lparr>deploymentInformer := Some newInformer\<rparr> else c);
                       c = (if extractStatefulSetLabelsAnnotations c
                            then c\<lparr>statefulsetInformer := Some newInformer\<rparr> else c)
                   in Inr c)"

text \<open>
  \<^verbatim>\<open>Start\<close>. \<^verbatim>\<open>AddEventHandler\<close> on an informer may return an error (an outcome taken from
  outside, per kind); on a nil informer the call panics. An informer that got its handlers is
  run. \<^verbatim>\<open>Start\<close> returns the error, if any; the client is changed either way.
\<close>

datatype kind = PodKind | NamespaceKind | NodeKind | DeploymentKind | StatefulSetKind | ReplicaSetKind

record StartDeps =
  AddEventHandler_err :: "kind \<Rightarrow> error option"
  WaitForCacheSync :: bool

type_synonym startResult = "(WatchClient \<times> error option) option"

definition addHandlersAndRun ::
  "error option \<Rightarrow> SharedInformer option \<Rightarrow> (SharedInformer option \<times> error option) option" where
  "addHandlersAndRun err si =
     (case si of
        None \<Rightarrow> None
      | Some i \<Rightarrow>
          (case err of
             Some e \<Rightarrow> Some (Some i, Some e)
           | None \<Rightarrow> Some (Some (i\<lparr>handlers := True, started := True\<rparr>), None)))"

definition andThen :: "startResult \<Rightarrow> (WatchClient \<Rightarrow> startResult) \<Rightarrow> startResult" where
  "andThen r f =
     (case r of
        None \<Rightarrow> None
      | Some (c, Some err) \<Rightarrow> Some (c, Some err)
      | Some (c, None) \<Rightarrow> f c)"

definition startReplicaSet :: "StartDeps \<Rightarrow> WatchClient \<Rightarrow> startResult" where
  "startReplicaSet deps c =
     (if ExtractionRules.DeploymentName (Rules c) \<or> ExtractionRules.DeploymentUID (Rules c)
      then (case addHandlersAndRun (AddEventHandler_err deps ReplicaSetKind) (replicasetInformer c) of
              None \<Rightarrow> None
            | Some (si, err) \<Rightarrow> Some (c\<lparr>replicasetInformer := si\<rparr>, err))
      else Some (c, None))"

definition startNamespace :: "StartDeps \<Rightarrow> WatchClient \<Rightarrow> startResult" where
  "startNamespace deps c =
     (case addHandlersAndRun (AddEventHandler_err deps NamespaceKind) (namespaceInformer c) of
        None \<Rightarrow> None
      | Some (si, err) \<Rightarrow> Some (c\<lparr>namespaceInformer := si\<rparr>, err))"

definition startNode :: "StartDeps \<Rightarrow> WatchClient \<Rightarrow> startResult" where
  "startNode deps c =
     (if nodeInformer c \<noteq> None
      then (case addHandlersAndRun (AddEventHandler_err deps NodeKind) (nodeInformer c) of
              None \<Rightarrow> None
            | Some (si, err) \<Rightarrow> Some (c\<lparr>nodeInformer := si\<rparr>, err))
      else Some (c, None))"

definition startDeployment :: "StartDeps \<Rightarrow> WatchClient \<Rightarrow> startResult" where
  "startDeployment deps c =
     (if deploymentInformer c \<noteq> None
      then (case addHandlersAndRun (AddEventHandler_err deps DeploymentKind) (deploymentInformer c) of
              None \<Rightarrow> None
            | Some (si, err) \<Rightarrow> Some (c\<lparr>deploymentInformer := si\<rparr>, err))
      else Some (c, None))"

definition startStatefulSet :: "StartDeps \<Rightarrow> WatchClient \<Rightarrow> startResult" where
  "startStatefulSet deps c =
     (if statefulsetInformer c \<noteq> None
      then (case addHandlersAndRun (AddEventHandler_err deps StatefulSetKind) (statefulsetInformer c) of
              None \<Rightarrow> None
            | Some (si, err) \<Rightarrow> Some (c\<lparr>statefulsetInformer := si\<rparr>, err))
      else Some (c, None))"

definition startPod :: "StartDeps \<Rightarrow> WatchClient \<Rightarrow> startResult" where
  "startPod deps c =
     (case addHandlersAndRun (AddEventHandler_err deps PodKind) (informer c) of
        None \<Rightarrow> None
      | Some (si, err) \<Rightarrow> Some (c\<lparr>informer := si\<rparr>, err))"

definition waitForSync :: "StartDeps \<Rightarrow> WatchClient \<Rightarrow> startResult" where
  "waitForSync deps c =
     (if waitForMetadata c \<and> \<not> WaitForCacheSync deps
      then Some (c, Some ''failed to wait for caches to sync'')
      else Some (c, None))"

definition Start :: "StartDeps \<Rightarrow> WatchClient \<Rightarrow> startResult" where
  "Start deps c =
     andThen (andThen (andThen (andThen (andThen (andThen
       (startReplicaSet deps c)
       (startNamespace deps))
       (startNode deps))
       (startDeployment deps))
       (startStatefulSet deps))
       (startPod deps))
       (waitForSync deps)"

subsection \<open>Runs of the client\<close>

text \<open>
  What happens to a client after \<^verbatim>\<open>New\<close>: a watch notification, a wake-up of
  \<^verbatim>\<open>deleteLoop\<close> by its timer (started by \<^verbatim>\<open>New\<close>, with the default grace period), or a
  lookup. An informer calls its handlers only when it has handlers and was run; a notification
  of a kind whose informer does not run reaches no handler. A pod delete notification carries
  the clock readings of its handler run.
\<close>

datatype event =
    PodAdd obj | PodUpdate obj obj | PodDelete obj "nat \<Rightarrow> time"
  | NamespaceAdd obj | NamespaceUpdate obj obj | NamespaceDelete obj
  | NodeAdd obj | NodeUpdate obj obj | NodeDelete obj
  | DeploymentAdd obj | DeploymentUpdate obj obj | DeploymentDelete obj
  | StatefulSetAdd obj | StatefulSetUpdate obj obj | StatefulSetDelete obj
  | ReplicaSetAdd obj | ReplicaSetUpdate obj obj | ReplicaSetDelete obj
  | TimerFired time
  | Lookup PodIdentifier

definition running :: "SharedInformer option \<Rightarrow> bool" where
  "running si = (case si of None \<Rightarrow> False | Some i \<Rightarrow> handlers i \<and> started i)"

fun deliver :: "ext \<Rightarrow> WatchClient \<Rightarrow> event \<Rightarrow> WatchClient option" where
  "deliver X c (PodAdd ob) = (if running (informer c) then handlePodAdd X c ob else Some c)"
| "deliver X c (PodUpdate old new) = (if running (informer c) then handlePodUpdate X c old new else Some c)"
| "deliver X c (PodDelete ob clock) = (if running (informer c) then handlePodDelete X clock c ob else Some c)"
| "deliver X c (NamespaceAdd ob) = Some (if running (namespaceInformer c) then handleNamespaceAdd X c ob else c)"
| "deliver X c (NamespaceUpdate old new) = Some (if running (namespaceInformer c) then handleNamespaceUpdate X c old new else c)"
| "deliver X c (NamespaceDelete ob) = Some (if running (namespaceInformer c) then handleNamespaceDelete c ob else c)"
| "deliver X c (NodeAdd ob) = Some (if running (nodeInformer c) then handleNodeAdd X c ob else c)"
| "deliver X c (NodeUpdate old new) = Some (if running (nodeInformer c) then handleNodeUpdate X c old new else c)"
| "deliver X c (NodeDelete ob) = Some (if running (nodeInformer c) then handleNodeDelete c ob else c)"
| "deliver X c (DeploymentAdd ob) = Some (if running (deploymentInformer c) then handleDeploymentAdd X c ob else c)"
| "deliver X c (DeploymentUpdate old new) = Some (if running (deploymentInformer c) then handleDeploymentUpdate X c old new else c)"
| "deliver X c (DeploymentDelete ob) = Some (if running (deploymentInformer c) then handleDeploymentDelete c ob else c)"
| "deliver X c (StatefulSetAdd ob) = Some (if running (statefulsetInformer c) then handleStatefulSetAdd X c ob else c)"
| "deliver X c (StatefulSetUpdate old new) = Some (if running (statefulsetInformer c) then handleStatefulSetUpdate X c old new else c)"
| "deliver X c (StatefulSetDelete ob) = Some (if running (statefulsetInformer c) then handleStatefulSetDelete c ob else c)"
| "deliver X c (ReplicaSetAdd ob) = Some (if running (replicasetInformer c) then handleReplicaSetAdd c ob else c)"
| "deliver X c (ReplicaSetUpdate old new) = Some (if running (replicasetInformer c) then handleReplicaSetUpdate c old new else c)"
| "deliver X c (ReplicaSetDelete ob) = Some (if running (replicasetInformer c) then handleReplicaSetDelete c ob else c)"
| "deliver X c (TimerFired now) = Some (deleteTick now (defaultPodDeleteGracePeriod X) c)"
| "deliver X c (Lookup identifier) = Some (snd (GetPod c identifier))"

fun run :: "ext \<Rightarrow> WatchClient \<Rightarrow> event list \<Rightarrow> WatchClient option" where
  "run X c [] = Some c"
| "run X c (ev # evs) = (case deliver X c ev of None \<Rightarrow> None | Some c' \<Rightarrow> run X c' evs)"

subsection \<open>Notions used to state the properties\<close>

text \<open>An identifier with no attribute taken from the connection.\<close>

definition noConn :: "PodIdentifier \<Rightarrow> bool" where
  "noConn i = (\<forall>a \<in> set i. From (Source a) \<noteq> ConnectionSource)"

text \<open>A resource-attribute source for the container ID.\<close>

definition isContainerIDSource :: "AssociationSource \<Rightarrow> bool" where
  "isContainerIDSource s = (From s = ResourceSource \<and> AssociationSource.Name s = ContainerIDKey)"

subsection \<open>Example objects\<close>

text \<open>
  A client with one association, \<open>[resource attribute k8s.pod.uid]\<close>, identifiers of four
  attributes, a grace period of 5, no deployment rule, no exclusion pattern, and the
  container-ID rule. Its parameters: a pod has no extracted attributes and two containers,
  \<open>c1\<close> and \<open>c2\<close>; the two string functions are the identity, which is what the library
  functions are on the one annotation value of the examples, \<open>true\<close>.
\<close>

definition exRules :: ExtractionRules where
  "exRules = \<lparr>ExtractionRules.DeploymentName = False, ExtractionRules.DeploymentUID = False,
     ExtractionRules.NodeUID = False, ExtractionRules.ContainerImageName = False,
     ExtractionRules.ContainerName = False, ExtractionRules.ContainerImageTag = False,
     ExtractionRules.ContainerImageRepoDigests = False, ExtractionRules.ContainerID = True,
     ExtractionRules.ServiceVersion = False, ExtractionRules.ServiceInstanceID = False,
     ExtractionRules.Labels = [], ExtractionRules.Annotations = []\<rparr>"

definition exAssociations :: "Association list" where
  "exAssociations = [\<lparr>Sources = [\<lparr>From = ResourceSource, AssociationSource.Name = K8SPodUIDKey\<rparr>]\<rparr>]"

definition exContainer :: Container where
  "exContainer = \<lparr>Container.Name = [], ImageName = [], ImageTag = [], Container.ServiceInstanceID = [],
     Container.ServiceVersion = [], Statuses = Map.empty\<rparr>"

definition exX :: ext where
  "exX = \<lparr>PodIdentifierMaxLength = 4, defaultPodDeleteGracePeriod = 5,
     ignoreAnnotation = ''opentelemetry.io/k8s-processor/ignore'',
     ToLower = (\<lambda>s. s), TrimSpace = (\<lambda>s. s),
     extractPodAttributes = (\<lambda>c pod. Map.empty),
     extractPodContainersAttributes = (\<lambda>c pod. \<lparr>ByID = [(''c1'', exContainer), (''c2'', exContainer)], ByName = Map.empty\<rparr>),
     extractNamespaceAttributes = (\<lambda>c ob. Map.empty),
     extractNodeAttributes = (\<lambda>c ob. Map.empty),
     extractDeploymentAttributes = (\<lambda>c ob. Map.empty),
     extractStatefulSetAttributes = (\<lambda>c ob. Map.empty)\<rparr>"

definition exNewDeps :: NewDeps where
  "exNewDeps = \<lparr>NewTelemetryBuilder_err = None, newClientSet_err = None, selectorsFromFilters_err = None,
     SetTransform_err = None, replicasetSetTransform_err = None\<rparr>"

definition exStartDeps :: StartDeps where
  "exStartDeps = \<lparr>AddEventHandler_err = (\<lambda>k. None), WaitForCacheSync = True\<rparr>"

definition web1 :: api_Pod where
  "web1 = \<lparr>ObjectMeta.Name = ''web-1'', ObjectMeta.Namespace = ''default'', ObjectMeta.UID = ''u1'',
     ObjectMeta.Labels = Map.empty, ObjectMeta.Annotations = Map.empty,
     OwnerReferences = [\<lparr>Kind = ''ReplicaSet'', OwnerReference.Name = ''web'', OwnerReference.UID = ''rs1'', Controller = Some True\<rparr>],
     CreationTimestamp = 0, Spec_NodeName = ''node-a'', Spec_HostNetwork = False,
     Status_PodIP = ''10.0.0.5'', Status_StartTime = Some 100\<rparr>"

definition exClient :: WatchClient where
  "exClient = \<lparr>informer = Some \<lparr>handlers = True, started = True\<rparr>,
     namespaceInformer = Some \<lparr>handlers = True, started = True\<rparr>,
     nodeInformer = None, deploymentInformer = None, statefulsetInformer = None,
     replicasetInformer = None, deleteQueue = [], waitForMetadata = False,
     Pods = Map.empty, Rules = exRules, Associations = exAssociations,
     Exclude = \<lparr>Excludes.Pods = []\<rparr>,
     Namespaces = Map.empty, Nodes = Map.empty, Deployments = Map.empty,
     StatefulSets = Map.empty, ReplicaSets = Map.empty,
     telemetryBuilder = \<lparr>counters = (\<lambda>m. 0), OtelsvcK8sPodTableSize = 0\<rparr>\<rparr>"

definition uidID :: PodIdentifier where
  "uidID = [\<lparr>Source = \<lparr>From = ResourceSource, AssociationSource.Name = ''k8s.pod.uid''\<rparr>, Value = ''u1''\<rparr>,
            zeroAttribute, zeroAttribute, zeroAttribute]"
definition connID :: PodIdentifier where
  "connID = [\<lparr>Source = \<lparr>From = ConnectionSource, AssociationSource.Name = []\<rparr>, Value = ''10.0.0.5''\<rparr>,
            zeroAttribute, zeroAttribute, zeroAttribute]"
definition ipID :: PodIdentifier where
  "ipID = [\<lparr>Source = \<lparr>From = ResourceSource, AssociationSource.Name = ''k8s.pod.ip''\<rparr>, Value = ''10.0.0.5''\<rparr>,
            zeroAttribute, zeroAttribute, zeroAttribute]"


text \<open>
  Three more pods at the address of \<open>web1\<close>: \<open>web1b\<close> has the name of \<open>web1\<close>, another UID, a
  later start time and the ignore annotation; \<open>api2\<close> has another name and UID and a later
  start time; \<open>web1h\<close> is \<open>web1\<close> on the host network.
\<close>

definition web1b :: api_Pod where
  "web1b = web1\<lparr>ObjectMeta.UID := ''u2'',
     ObjectMeta.Annotations := [''opentelemetry.io/k8s-processor/ignore'' \<mapsto> ''true''],
     Status_StartTime := Some 200\<rparr>"

definition api2 :: api_Pod where
  "api2 = web1\<lparr>ObjectMeta.Name := ''api-2'', ObjectMeta.UID := ''u3'', Status_StartTime := Some 200\<rparr>"

definition web1h :: api_Pod where
  "web1h = web1\<lparr>Spec_HostNetwork := True\<rparr>"

text \<open>The record of a pod in the example client, and a run of the example client.\<close>

definition exPod :: "api_Pod \<Rightarrow> Pod" where
  "exPod pod = podFromAPI exX exClient pod"

definition podAfter :: "ext \<Rightarrow> WatchClient \<Rightarrow> event list \<Rightarrow> PodIdentifier \<Rightarrow> Pod option" where
  "podAfter X c evs i = (case run X c evs of None \<Rightarrow> None | Some c' \<Rightarrow> Pods c' i)"

definition queueAfter :: "ext \<Rightarrow> WatchClient \<Rightarrow> event list \<Rightarrow> deleteRequest list" where
  "queueAfter X c evs = (case run X c evs of None \<Rightarrow> [] | Some c' \<Rightarrow> deleteQueue c')"


fun isTimerFired :: "event \<Rightarrow> bool" where
  "isTimerFired (TimerFired now) = True"
| "isTimerFired ev = False"

definition uidIdentifier :: "ext \<Rightarrow> string \<Rightarrow> PodIdentifier" where
  "uidIdentifier X uid =
     PodIdentifier1 (PodIdentifierMaxLength X) (PodIdentifierAttributeFromResourceAttribute K8SPodUIDKey uid)"

fun expectedRequests ::
  "(nat \<Rightarrow> time) \<Rightarrow> string \<Rightarrow> nat \<Rightarrow> PodIdentifier list \<Rightarrow> (PodIdentifier \<rightharpoonup> Pod) \<Rightarrow> deleteRequest list" where
  "expectedRequests clock name k [] pods = []"
| "expectedRequests clock name k (i # ids) pods =
     (case pods i of
        Some p \<Rightarrow> if \<not> Ignore p \<and> Pod.Name p = name
                   then [\<lparr>id' = i, podName = name, ts = clock k\<rparr>] else []
      | None \<Rightarrow> [])
     @ expectedRequests clock name (Suc k) ids pods"

text \<open>
  A client in which no replicaset was ever cached and no replicaset informer exists, with no
  deployment rule.
\<close>

definition noReplicaSets :: "WatchClient \<Rightarrow> bool" where
  "noReplicaSets c =
     (replicasetInformer c = None \<and> ReplicaSets c = Map.empty \<and>
      \<not> ExtractionRules.DeploymentName (Rules c) \<and> \<not> ExtractionRules.DeploymentUID (Rules c))"

text \<open>
  \<open>web1c\<close> is a later pod with the name and the address of \<open>web1\<close> (a recreated pod);
  \<open>web1n\<close> is \<open>web1\<close> before it was started, \<open>web1e\<close> is \<open>web1\<close> with an earlier start time.
  \<open>exAdded\<close> is the example client after the pod \<open>web1\<close> was added.
\<close>

definition web1c :: api_Pod where
  "web1c = web1\<lparr>ObjectMeta.UID := ''u4'', Status_StartTime := Some 200\<rparr>"

definition web1n :: api_Pod where
  "web1n = web1\<lparr>Status_StartTime := None\<rparr>"

definition web1e :: api_Pod where
  "web1e = web1\<lparr>Status_StartTime := Some 50\<rparr>"

definition exAdded :: WatchClient where
  "exAdded = the (run exX exClient [PodAdd (PodObj web1)])"

text \<open>
  \<open>exDeleted\<close> is the example client after \<open>web1\<close> was added, then deleted at time 0;
  \<open>exIgnored\<close> is the example client after the ignored pod \<open>web1b\<close> was added.
\<close>

definition exDeleted :: WatchClient where
  "exDeleted = the (run exX exClient [PodAdd (PodObj web1), PodDelete (PodObj web1) (\<lambda>k. 0)])"

definition exIgnored :: WatchClient where
  "exIgnored = the (run exX exClient [PodAdd (PodObj web1b)])"

text \<open>
  When an association is skipped for a pod, in the words of the spec: a connection source on a
  pod without address or on the host network skips it; a resource-attribute source whose value
  is the empty string (an absent attribute included) skips it, unless it is the container-ID
  source or comes after one. \<open>seen\<close> says whether a container-ID source came before.
\<close>

definition sourceSkips :: "Pod \<Rightarrow> bool \<Rightarrow> AssociationSource \<Rightarrow> bool" where
  "sourceSkips pod seen s =
     (case From s of
        ConnectionSource \<Rightarrow> Address pod = [] \<or> HostNetwork pod
      | ResourceSource \<Rightarrow>
          \<not> seen \<and> AssociationSource.Name s \<noteq> ContainerIDKey \<and> fst (resourceAttr pod 0 s 0) = []
      | OtherSource x \<Rightarrow> False)"

fun ruleSkipped :: "Pod \<Rightarrow> bool \<Rightarrow> AssociationSource list \<Rightarrow> bool" where
  "ruleSkipped pod seen [] = False"
| "ruleSkipped pod seen (s # ss) =
     (sourceSkips pod seen s \<or> ruleSkipped pod (seen \<or> isContainerIDSource s) ss)"

text \<open>
  The example client with a second association, \<open>[connection]\<close>, in front; two associations
  with a container-ID source.
\<close>

definition exClientConn :: WatchClient where
  "exClientConn =
     exClient\<lparr>Associations :=
       \<lparr>Sources = [\<lparr>From = ConnectionSource, AssociationSource.Name = []\<rparr>]\<rparr> # exAssociations\<rparr>"

definition nameAndContainer :: Association where
  "nameAndContainer =
     \<lparr>Sources = [\<lparr>From = ResourceSource, AssociationSource.Name = K8SPodNameKey\<rparr>,
                 \<lparr>From = ResourceSource, AssociationSource.Name = ContainerIDKey\<rparr>]\<rparr>"

definition connAndContainer :: Association where
  "connAndContainer =
     \<lparr>Sources = [\<lparr>From = ConnectionSource, AssociationSource.Name = []\<rparr>,
                 \<lparr>From = ResourceSource, AssociationSource.Name = ContainerIDKey\<rparr>]\<rparr>"

text \<open>\<open>web1l\<close> is \<open>web1\<close> with a later start time.\<close>

definition web1l :: api_Pod where
  "web1l = web1\<lparr>Status_StartTime := Some 300\<rparr>"

text \<open>
  Two clients with the same replicaset informer, replicaset table and rules; two such clients
  with the same pod table; a client none of whose stored records names a deployment.
\<close>

definition sameReplicaSets :: "WatchClient \<Rightarrow> WatchClient \<Rightarrow> bool" where
  "sameReplicaSets c c' =
     (replicasetInformer c' = replicasetInformer c \<and> ReplicaSets c' = ReplicaSets c \<and>
      Rules c' = Rules c)"

definition startKeeps :: "WatchClient \<Rightarrow> WatchClient \<Rightarrow> bool" where
  "startKeeps c c' = (sameReplicaSets c c' \<and> Pods c' = Pods c)"

definition noDeploymentUIDs :: "WatchClient \<Rightarrow> bool" where
  "noDeploymentUIDs c = (\<forall>i p. Pods c i = Some p \<longrightarrow> Pod.DeploymentUID p = [])"

text \<open>
  The example client as \<^verbatim>\<open>New\<close> returns it, before \<^verbatim>\<open>Start\<close>; the replicaset that owns
  the pod \<open>web1\<close>, controlled by a deployment.
\<close>

definition exNew :: WatchClient where
  "exNew = exClient\<lparr>informer := Some newInformer, namespaceInformer := Some newInformer\<rparr>"

definition rs1 :: ObjectMeta where
  "rs1 = \<lparr>ObjectMeta.Name = ''web'', ObjectMeta.Namespace = ''default'', ObjectMeta.UID = ''rs1'',
     ObjectMeta.Labels = Map.empty, ObjectMeta.Annotations = Map.empty,
     OwnerReferences = [\<lparr>Kind = ''Deployment'', OwnerReference.Name = ''web-dep'',
                          OwnerReference.UID = ''d1'', Controller = Some True\<rparr>],
     CreationTimestamp = 0\<rparr>"

text \<open>
  The identifier of an association for a pod, in the words of the spec: at the position of each
  source, the attribute of that source with the value it resolves to (the pod address for the
  connection source, the value of the resource attribute, empty for the container ID); the zero
  attribute at the position of a source of another kind and at the positions after the last
  source.
\<close>

definition sourceAttribute :: "Pod \<Rightarrow> AssociationSource \<Rightarrow> PodIdentifierAttribute" where
  "sourceAttribute pod s =
     (case From s of
        ConnectionSource \<Rightarrow> PodIdentifierAttributeFromSource s (Address pod)
      | ResourceSource \<Rightarrow> PodIdentifierAttributeFromSource s (fst (resourceAttr pod 0 s 0))
      | OtherSource x \<Rightarrow> zeroAttribute)"

definition ruleIdentifier :: "nat \<Rightarrow> Pod \<Rightarrow> AssociationSource list \<Rightarrow> PodIdentifier" where
  "ruleIdentifier n pod ss =
     map (\<lambda>l. if l < length ss then sourceAttribute pod (ss ! l) else zeroAttribute) [0..<n]"

text \<open>The association \<open>[container.id, container.id]\<close>.\<close>

definition twoContainerIDs :: Association where
  "twoContainerIDs =
     \<lparr>Sources = [\<lparr>From = ResourceSource, AssociationSource.Name = ContainerIDKey\<rparr>,
                 \<lparr>From = ResourceSource, AssociationSource.Name = ContainerIDKey\<rparr>]\<rparr>"
subsection \<open>Unfolding the model on the example objects\<close>

lemmas key_defs =
  K8SNamespaceNameKey_def K8SPodNameKey_def K8SPodUIDKey_def HostNameKey_def
  ContainerIDKey_def K8sIPLabelName_def

lemmas resolver_defs =
  getIdentifiersFromAssoc_def identifiersFromAssoc_def assocIdentifiers_def sourceStep_def
  resourceAttr_def podUIDFallback_def addressFallback_def PodIdentifier1_def
  zeroPodIdentifier_def zeroAttribute_def PodIdentifierAttributeFromSource_def
  PodIdentifierAttributeFromConnection_def PodIdentifierAttributeFromResourceAttribute_def
  containerIDAttribute_def uidIdentifier_def

lemmas ex_defs =
  exX_def exClient_def exRules_def exAssociations_def web1_def web1b_def api2_def web1h_def web1c_def web1n_def web1e_def exAdded_def exDeleted_def exIgnored_def web1l_def exNew_def rs1_def
  exNewDeps_def exStartDeps_def
  exClientConn_def nameAndContainer_def connAndContainer_def twoContainerIDs_def
  uidID_def connID_def ipID_def exPod_def

lemmas handler_defs =
  handlePodAdd_def handlePodUpdate_def handlePodDelete_def addOrUpdatePod_def forgetPod_def
  podFromAPI_def shouldIgnorePod_def getReplicaSet_def getStatefulSet_def getPodReplicaSetUID_def
  getPodStatefulSetUID_def needContainerAttributes_def counterAdd_def recordPodTableSize_def
  GetPod_def appendDeleteQueue_def ignoreDeletedFinalStateUnknown_def running_def Before_def
  deleteTick_def toDelete_def

lemmas run_defs =
  podAfter_def queueAfter_def handler_defs resolver_defs key_defs ex_defs eval_nat_numeral Let_def

lemmas start_defs =
  New_def Start_def andThen_def startReplicaSet_def startNamespace_def startNode_def
  startDeployment_def startStatefulSet_def startPod_def waitForSync_def addHandlersAndRun_def
  newInformer_def extractNodeLabelsAnnotations_def extractNodeUID_def
  extractDeploymentLabelsAnnotations_def extractStatefulSetLabelsAnnotations_def

lemmas other_handler_defs =
  handleNamespaceAdd_def handleNamespaceUpdate_def handleNamespaceDelete_def
  handleNodeAdd_def handleNodeUpdate_def handleNodeDelete_def
  handleDeploymentAdd_def handleDeploymentUpdate_def handleDeploymentDelete_def
  handleStatefulSetAdd_def handleStatefulSetUpdate_def handleStatefulSetDelete_def
  handleReplicaSetAdd_def handleReplicaSetUpdate_def handleReplicaSetDelete_def
  addOrUpdateNamespace_def addOrUpdateNode_def addOrUpdateDeployment_def
  addOrUpdateStatefulSet_def addOrUpdateReplicaSet_def

subsection \<open>The scan of the delete queue\<close>

lemma cutoffLoop_takeWhile:
  "cutoffLoop now g i q k =
     (if takeWhile (\<lambda>d. ts d + g \<le> now) q = [] then k
      else i + length (takeWhile (\<lambda>d. ts d + g \<le> now) q))"
proof (induction q arbitrary: i k)
  case Nil
  show ?case by simp
next
  case (Cons d ds)
  show ?case
  proof (cases "ts d + g > now")
    case True
    then show ?thesis by simp
  next
    case False
    then show ?thesis using Cons.IH[of "Suc i" "i + 1"] by simp
  qed
qed

lemma cutoffLoop_0: "cutoffLoop now g 0 q 0 = length (takeWhile (\<lambda>d. ts d + g \<le> now) q)"
  by (simp add: cutoffLoop_takeWhile)

lemma toDelete_takeWhile: "toDelete now g q = takeWhile (\<lambda>d. ts d + g \<le> now) q"
  by (simp add: toDelete_def cutoffLoop_0 takeWhile_eq_take[symmetric])

lemma deletePods_char:
  "deletePods ds pods i =
     (case pods i of None \<Rightarrow> None
      | Some p \<Rightarrow> if \<exists>d \<in> set ds. id' d = i \<and> podName d = Pod.Name p then None else Some p)"
  by (induction ds arbitrary: pods) (auto split: option.splits)

lemma Pods_deleteTick:
  "Pods (deleteTick now g c) = deletePods (toDelete now g (deleteQueue c)) (Pods c)"
  by (simp add: deleteTick_def recordPodTableSize_def Let_def)

lemma deleteQueue_deleteTick:
  "deleteQueue (deleteTick now g c) = dropWhile (\<lambda>d. ts d + g \<le> now) (deleteQueue c)"
  by (simp add: deleteTick_def recordPodTableSize_def Let_def cutoffLoop_0 dropWhile_eq_drop[symmetric])

subsection \<open>The resolver\<close>

lemma resourceAttr_container:
  "AssociationSource.Name s = ContainerIDKey \<Longrightarrow> resourceAttr pod i s k = ([], int i)"
  by (simp add: resourceAttr_def key_defs)

lemma resourceAttr_other:
  "AssociationSource.Name s \<noteq> ContainerIDKey \<Longrightarrow> snd (resourceAttr pod i s k) = k"
  by (simp add: resourceAttr_def split: option.splits)

text \<open>The resolver returns when no association has more sources than the identifier has places.\<close>

lemma sourceStep_total:
  "i < n \<Longrightarrow> sourceStep n pod i s st \<noteq> None"
  by (auto simp: sourceStep_def split: prod.splits FromKind.splits)

lemma sourcesLoop_total:
  "i + length ss \<le> n \<Longrightarrow> sourcesLoop n pod i ss st \<noteq> None"
proof (induction ss arbitrary: i st)
  case Nil
  show ?case by simp
next
  case (Cons s ss)
  then have "i < n" by simp
  then obtain st' where st': "sourceStep n pod i s st = Some st'"
    using sourceStep_total[of i n pod s st] by auto
  from Cons.prems have "Suc i + length ss \<le> n" by simp
  from Cons.IH[OF this] st' show ?case by simp
qed

lemma assocIdentifiers_total:
  "length (Sources a) \<le> n \<Longrightarrow> assocIdentifiers n pod a \<noteq> None"
  using sourcesLoop_total[of 0 "Sources a" n pod "(zeroPodIdentifier n, -1, False)"]
  by (auto simp: assocIdentifiers_def split: option.splits)

lemma assocLoop_total:
  "\<forall>a \<in> set as. length (Sources a) \<le> n \<Longrightarrow> assocLoop n pod as ids \<noteq> None"
proof (induction as arbitrary: ids)
  case Nil
  show ?case by simp
next
  case (Cons a as)
  then obtain new where "assocIdentifiers n pod a = Some new"
    using assocIdentifiers_total[of a n pod] by auto
  with Cons show ?case by simp
qed

lemma identifiersFromAssoc_total:
  "\<forall>a \<in> set as. length (Sources a) \<le> n \<Longrightarrow> \<exists>ids. identifiersFromAssoc n as pod = Some ids"
  using assocLoop_total[of as n pod "[]"]
  by (auto simp: identifiersFromAssoc_def split: option.splits)

text \<open>The result of the loop over the associations, association by association.\<close>

lemma assocLoop_acc:
  "assocLoop n pod as ids = map_option (\<lambda>r. ids @ r) (assocLoop n pod as [])"
proof (induction as arbitrary: ids)
  case Nil
  show ?case by simp
next
  case (Cons a as)
  show ?case
  proof (cases "assocIdentifiers n pod a")
    case None
    then show ?thesis by simp
  next
    case (Some new)
    have 1: "assocLoop n pod (a # as) ids = assocLoop n pod as (ids @ new)"
      using Some by simp
    have 2: "assocLoop n pod (a # as) [] = assocLoop n pod as new"
      using Some by simp
    show ?thesis
      unfolding 1 2
      by (subst Cons.IH[of "ids @ new"], subst Cons.IH[of new])
         (cases "assocLoop n pod as []", simp_all)
  qed
qed

lemma assocLoop_Cons:
  "assocLoop n pod (a # as) [] =
     (case assocIdentifiers n pod a of None \<Rightarrow> None
      | Some new \<Rightarrow> map_option (\<lambda>r. new @ r) (assocLoop n pod as []))"
proof (cases "assocIdentifiers n pod a")
  case None
  then show ?thesis by simp
next
  case (Some new)
  then have "assocLoop n pod (a # as) [] = assocLoop n pod as new" by simp
  also have "\<dots> = map_option (\<lambda>r. new @ r) (assocLoop n pod as [])" by (rule assocLoop_acc)
  finally show ?thesis using Some by simp
qed

lemma assocLoop_mem:
  "assocLoop n pod as [] = Some r \<Longrightarrow> i \<in> set r \<Longrightarrow>
     \<exists>a \<in> set as. \<exists>new. assocIdentifiers n pod a = Some new \<and> i \<in> set new"
proof (induction as arbitrary: r)
  case Nil
  then show ?case by simp
next
  case (Cons a as)
  from Cons.prems(1) obtain new rest where a: "assocIdentifiers n pod a = Some new"
    and rest: "assocLoop n pod as [] = Some rest" and r: "r = new @ rest"
    unfolding assocLoop_Cons by (auto split: option.splits)
  show ?case
  proof (cases "i \<in> set new")
    case True
    with a show ?thesis by auto
  next
    case False
    with Cons.prems(2) r have "i \<in> set rest" by simp
    from Cons.IH[OF rest this] show ?thesis by auto
  qed
qed

lemma identifiersFromAssoc_mem:
  "identifiersFromAssoc n as pod = Some ids \<Longrightarrow> i \<in> set ids \<Longrightarrow>
     (\<exists>a \<in> set as. \<exists>new. assocIdentifiers n pod a = Some new \<and> i \<in> set new)
     \<or> i \<in> set (podUIDFallback n pod) \<or> i \<in> set (addressFallback n pod)"
  using assocLoop_mem[of n pod as _ i]
  by (auto simp: identifiersFromAssoc_def split: option.splits)

lemma noConn_update: "noConn r \<Longrightarrow> From (Source a) \<noteq> ConnectionSource \<Longrightarrow> noConn (r[k := a])"
  unfolding noConn_def using set_update_subset_insert[of r k a] by auto

lemma sourceStep_noConn:
  "HostNetwork pod \<Longrightarrow> sourceStep n pod i s (ret, k, skip) = Some (ret', k', skip') \<Longrightarrow> noConn ret \<Longrightarrow> noConn ret'"
  by (auto simp: sourceStep_def PodIdentifierAttributeFromSource_def noConn_update
           split: FromKind.splits prod.splits if_splits)

lemma sourceStep_skip_mono:
  "sourceStep n pod i s (ret, k, True) = Some (ret', k', skip') \<Longrightarrow> skip'"
  by (auto simp: sourceStep_def split: FromKind.splits prod.splits if_splits)

lemma sourceStep_conn_skips:
  "HostNetwork pod \<or> Address pod = [] \<Longrightarrow> From s = ConnectionSource \<Longrightarrow>
   sourceStep n pod i s (ret, k, skip) = Some (ret', k', skip') \<Longrightarrow> skip'"
  by (auto simp: sourceStep_def split: FromKind.splits prod.splits if_splits)

lemma sourcesLoop_skip_mono:
  "sourcesLoop n pod i ss (ret, k, True) = Some (ret', k', skip') \<Longrightarrow> skip'"
proof (induction ss arbitrary: i ret k)
  case Nil
  then show ?case by simp
next
  case (Cons s ss)
  from Cons.prems obtain r1 k1 s1 where st: "sourceStep n pod i s (ret, k, True) = Some (r1, k1, s1)"
    and l: "sourcesLoop n pod (Suc i) ss (r1, k1, s1) = Some (ret', k', skip')"
    by (auto split: option.splits)
  from sourceStep_skip_mono[OF st] have s1 by simp
  with l have "sourcesLoop n pod (Suc i) ss (r1, k1, True) = Some (ret', k', skip')" by simp
  then show ?case by (rule Cons.IH)
qed

lemma sourcesLoop_conn_skips:
  "HostNetwork pod \<or> Address pod = [] \<Longrightarrow> \<exists>s \<in> set ss. From s = ConnectionSource \<Longrightarrow>
   sourcesLoop n pod i ss (ret, k, skip) = Some (ret', k', skip') \<Longrightarrow> skip'"
proof (induction ss arbitrary: i ret k skip)
  case Nil
  then show ?case by simp
next
  case (Cons s ss)
  from Cons.prems(3) obtain r1 k1 s1 where st: "sourceStep n pod i s (ret, k, skip) = Some (r1, k1, s1)"
    and l: "sourcesLoop n pod (Suc i) ss (r1, k1, s1) = Some (ret', k', skip')"
    by (auto split: option.splits)
  show ?case
  proof (cases "From s = ConnectionSource")
    case True
    from sourceStep_conn_skips[OF Cons.prems(1) True st] have s1 .
    with l have "sourcesLoop n pod (Suc i) ss (r1, k1, True) = Some (ret', k', skip')" by simp
    then show ?thesis by (rule sourcesLoop_skip_mono)
  next
    case False
    with Cons.prems(2) have "\<exists>s \<in> set ss. From s = ConnectionSource" by auto
    from Cons.IH[OF Cons.prems(1) this l] show ?thesis .
  qed
qed

lemma sourcesLoop_noConn:
  "HostNetwork pod \<Longrightarrow> sourcesLoop n pod i ss (ret, k, skip) = Some (ret', k', skip') \<Longrightarrow>
   noConn ret \<Longrightarrow> noConn ret'"
proof (induction ss arbitrary: i ret k skip)
  case Nil
  then show ?case by simp
next
  case (Cons s ss)
  from Cons.prems(2) obtain r1 k1 s1 where st: "sourceStep n pod i s (ret, k, skip) = Some (r1, k1, s1)"
    and l: "sourcesLoop n pod (Suc i) ss (r1, k1, s1) = Some (ret', k', skip')"
    by (auto split: option.splits)
  from sourceStep_noConn[OF Cons.prems(1) st Cons.prems(3)] have "noConn r1" .
  from Cons.IH[OF Cons.prems(1) l this] show ?case .
qed

lemma noConn_zero: "noConn (zeroPodIdentifier n)"
  by (simp add: noConn_def zeroPodIdentifier_def zeroAttribute_def)

lemma noConn_PodIdentifier1: "From (Source a) \<noteq> ConnectionSource \<Longrightarrow> noConn (PodIdentifier1 n a)"
  by (simp add: noConn_def PodIdentifier1_def zeroAttribute_def)

lemma assocIdentifiers_noConn:
  assumes "HostNetwork pod" "assocIdentifiers n pod a = Some new" "i \<in> set new"
  shows "noConn i"
proof -
  from assms(2) obtain ret k skip where
    l: "sourcesLoop n pod 0 (Sources a) (zeroPodIdentifier n, -1, False) = Some (ret, k, skip)"
    and new: "new = (if \<not> skip then (if k \<noteq> -1
                   then map (\<lambda>cID. ret[nat k := containerIDAttribute cID]) (map fst (ByID (Containers pod)))
                   else [ret]) else [])"
    by (auto simp: assocIdentifiers_def split: option.splits)
  from sourcesLoop_noConn[OF assms(1) l noConn_zero] have r: "noConn ret" .
  have "\<And>cID. noConn (ret[nat k := containerIDAttribute cID])"
    using r by (intro noConn_update) (simp_all add: containerIDAttribute_def PodIdentifierAttributeFromSource_def)
  with r new assms(3) show ?thesis by (auto split: if_splits)
qed

lemma assocIdentifiers_conn_skipped:
  assumes "HostNetwork pod \<or> Address pod = []" "\<exists>s \<in> set (Sources a). From s = ConnectionSource"
    "assocIdentifiers n pod a = Some new"
  shows "new = []"
proof -
  from assms(3) obtain ret k skip where
    l: "sourcesLoop n pod 0 (Sources a) (zeroPodIdentifier n, -1, False) = Some (ret, k, skip)"
    and new: "new = (if \<not> skip then (if k \<noteq> -1
                   then map (\<lambda>cID. ret[nat k := containerIDAttribute cID]) (map fst (ByID (Containers pod)))
                   else [ret]) else [])"
    by (auto simp: assocIdentifiers_def split: option.splits)
  from sourcesLoop_conn_skips[OF assms(1) assms(2) l] have skip .
  with new show ?thesis by simp
qed

lemma identifiersFromAssoc_noConn:
  assumes "HostNetwork pod" "identifiersFromAssoc n as pod = Some ids" "i \<in> set ids"
  shows "noConn i"
proof -
  from identifiersFromAssoc_mem[OF assms(2,3)]
  consider (rule) a new where "a \<in> set as" "assocIdentifiers n pod a = Some new" "i \<in> set new"
    | (uid) "i \<in> set (podUIDFallback n pod)" | (addr) "i \<in> set (addressFallback n pod)"
    by blast
  then show ?thesis
  proof cases
    case rule
    then show ?thesis using assocIdentifiers_noConn[OF assms(1)] by blast
  next
    case uid
    then show ?thesis
      by (auto simp: podUIDFallback_def PodIdentifierAttributeFromResourceAttribute_def
            PodIdentifierAttributeFromSource_def intro!: noConn_PodIdentifier1 split: if_splits)
  next
    case addr
    with assms(1) show ?thesis by (simp add: addressFallback_def)
  qed
qed

subsection \<open>The pod table and the delete queue\<close>

lemma Before_irrefl: "\<not> Before t t"
  by (simp add: Before_def split: option.splits)

lemma putLoop_char:
  "Pod.StartTime newPod = st \<Longrightarrow>
   putLoop st newPod ids pods i =
     (if i \<in> set ids \<and> \<not> (\<exists>q. pods i = Some q \<and> Before st (Pod.StartTime q))
      then Some newPod else pods i)"
proof (induction ids arbitrary: pods)
  case Nil
  show ?case by simp
next
  case (Cons j ids)
  let ?pods1 = "(case pods j of
          Some p \<Rightarrow> if Before st (Pod.StartTime p) then pods else pods(j \<mapsto> newPod)
        | None \<Rightarrow> pods(j \<mapsto> newPod))"
  have step: "putLoop st newPod (j # ids) pods i = putLoop st newPod ids ?pods1 i"
    by simp
  have IH: "putLoop st newPod ids ?pods1 i =
     (if i \<in> set ids \<and> \<not> (\<exists>q. ?pods1 i = Some q \<and> Before st (Pod.StartTime q))
      then Some newPod else ?pods1 i)"
    by (rule Cons.IH[OF Cons.prems])
  have nb: "\<not> Before st (Pod.StartTime newPod)"
    using Cons.prems Before_irrefl[of st] by simp
  show ?case
  proof (cases "i = j")
    case True
    show ?thesis
    proof (cases "pods j")
      case None
      then show ?thesis unfolding step IH using True nb by simp
    next
      case (Some p)
      then show ?thesis unfolding step IH using True nb by simp
    qed
  next
    case False
    then have "?pods1 i = pods i" by (simp split: option.splits)
    then show ?thesis unfolding step IH using False by auto
  qed
qed

lemma dom_putLoop: "dom pods \<subseteq> dom (putLoop st newPod ids pods)"
proof (induction ids arbitrary: pods)
  case Nil
  show ?case by simp
next
  case (Cons j ids)
  have "dom pods \<subseteq> dom (case pods j of None \<Rightarrow> pods(j \<mapsto> newPod)
          | Some p \<Rightarrow> if Before st (Pod.StartTime p) then pods else pods(j \<mapsto> newPod))"
    by (auto split: option.splits)
  also have "\<dots> \<subseteq> dom (putLoop st newPod (j # ids) pods)"
    using Cons.IH by simp
  finally show ?case .
qed

lemma podFromAPI_fields:
  "Pod.StartTime (podFromAPI X c pod) = Status_StartTime pod"
  "PodUID (podFromAPI X c pod) = ObjectMeta.UID pod"
  "Pod.Name (podFromAPI X c pod) = ObjectMeta.Name pod"
  "Address (podFromAPI X c pod) = Status_PodIP pod"
  "HostNetwork (podFromAPI X c pod) = Spec_HostNetwork pod"
  "Ignore (podFromAPI X c pod) = shouldIgnorePod X c pod"
  by (simp_all add: podFromAPI_def Let_def split: option.splits)

lemma podFromAPI_noReplicaSets:
  "ReplicaSets c = Map.empty \<Longrightarrow> Pod.DeploymentUID (podFromAPI X c pod) = []"
  by (simp add: podFromAPI_def getReplicaSet_def Let_def split: option.splits)

lemma addOrUpdatePod_char:
  assumes "addOrUpdatePod X c pod = Some c'"
  shows "\<exists>ids pods. getIdentifiersFromAssoc X c (podFromAPI X c pod) = Some ids \<and>
           c' = c\<lparr>Pods := pods\<rparr> \<and>
           (\<forall>i. pods i =
              (if i \<in> set ids \<and> \<not> (\<exists>q. Pods c i = Some q \<and> Before (Status_StartTime pod) (Pod.StartTime q))
               then Some (podFromAPI X c pod) else Pods c i))"
proof -
  from assms obtain ids where ids: "getIdentifiersFromAssoc X c (podFromAPI X c pod) = Some ids"
    and c': "c' = c\<lparr>Pods := putLoop (Status_StartTime pod) (podFromAPI X c pod) ids (Pods c)\<rparr>"
    by (auto simp: addOrUpdatePod_def Let_def split: option.splits)
  have "Pod.StartTime (podFromAPI X c pod) = Status_StartTime pod"
    by (rule podFromAPI_fields)
  from putLoop_char[OF this, of ids "Pods c"]
  have "\<forall>i. putLoop (Status_StartTime pod) (podFromAPI X c pod) ids (Pods c) i =
              (if i \<in> set ids \<and> \<not> (\<exists>q. Pods c i = Some q \<and> Before (Status_StartTime pod) (Pod.StartTime q))
               then Some (podFromAPI X c pod) else Pods c i)"
    by blast
  with ids c' show ?thesis
    by (intro exI[of _ ids] exI[of _ "putLoop (Status_StartTime pod) (podFromAPI X c pod) ids (Pods c)"]) simp
qed

lemma dom_addOrUpdatePod:
  assumes "addOrUpdatePod X c pod = Some c'"
  shows "dom (Pods c) \<subseteq> dom (Pods c')"
proof -
  from assms obtain ids where
    "c' = c\<lparr>Pods := putLoop (Status_StartTime pod) (podFromAPI X c pod) ids (Pods c)\<rparr>"
    by (auto simp: addOrUpdatePod_def Let_def split: option.splits)
  then show ?thesis using dom_putLoop[of "Pods c"] by simp
qed

lemma forgetLoop_frame:
  "\<exists>tb. forgetLoop clock name k ids c =
     c\<lparr>deleteQueue := deleteQueue c @ expectedRequests clock name k ids (Pods c),
       telemetryBuilder := tb\<rparr>"
proof (induction ids arbitrary: k c)
  case Nil
  have "c = c\<lparr>deleteQueue := deleteQueue c @ expectedRequests clock name k [] (Pods c),
       telemetryBuilder := telemetryBuilder c\<rparr>" by simp
  then show ?case by (intro exI[of _ "telemetryBuilder c"]) simp
next
  case (Cons i ids)
  show ?case
  proof (cases "Pods c i")
    case None
    let ?c1 = "counterAdd OtelsvcK8sIPLookupMiss c"
    have 1: "forgetLoop clock name k (i # ids) c = forgetLoop clock name (Suc k) ids ?c1"
      using None by (simp add: GetPod_def)
    from Cons.IH[of "Suc k" ?c1] obtain tb where
      "forgetLoop clock name (Suc k) ids ?c1 =
         ?c1\<lparr>deleteQueue := deleteQueue ?c1 @ expectedRequests clock name (Suc k) ids (Pods ?c1),
              telemetryBuilder := tb\<rparr>" ..
    then have "forgetLoop clock name k (i # ids) c =
       c\<lparr>deleteQueue := deleteQueue c @ expectedRequests clock name k (i # ids) (Pods c),
         telemetryBuilder := tb\<rparr>"
      unfolding 1 using None by (simp add: counterAdd_def)
    then show ?thesis ..
  next
    case (Some p)
    show ?thesis
    proof (cases "\<not> Ignore p \<and> Pod.Name p = name")
      case True
      let ?c1 = "appendDeleteQueue (clock k) c i name"
      have 1: "forgetLoop clock name k (i # ids) c = forgetLoop clock name (Suc k) ids ?c1"
        using Some True by (simp add: GetPod_def)
      from Cons.IH[of "Suc k" ?c1] obtain tb where
        "forgetLoop clock name (Suc k) ids ?c1 =
           ?c1\<lparr>deleteQueue := deleteQueue ?c1 @ expectedRequests clock name (Suc k) ids (Pods ?c1),
                telemetryBuilder := tb\<rparr>" ..
      then have "forgetLoop clock name k (i # ids) c =
         c\<lparr>deleteQueue := deleteQueue c @ expectedRequests clock name k (i # ids) (Pods c),
           telemetryBuilder := tb\<rparr>"
        unfolding 1 using Some True by (simp add: appendDeleteQueue_def)
      then show ?thesis ..
    next
      case False
      have 1: "forgetLoop clock name k (i # ids) c = forgetLoop clock name (Suc k) ids c"
        using Some False by (auto simp: GetPod_def)
      from Cons.IH[of "Suc k" c] obtain tb where
        "forgetLoop clock name (Suc k) ids c =
           c\<lparr>deleteQueue := deleteQueue c @ expectedRequests clock name (Suc k) ids (Pods c),
                telemetryBuilder := tb\<rparr>" ..
      then have "forgetLoop clock name k (i # ids) c =
         c\<lparr>deleteQueue := deleteQueue c @ expectedRequests clock name k (i # ids) (Pods c),
           telemetryBuilder := tb\<rparr>"
        unfolding 1 using Some False by auto
      then show ?thesis ..
    qed
  qed
qed

lemma forgetPod_char:
  assumes "forgetPod X clock c pod = Some c'"
  shows "\<exists>ids tb. getIdentifiersFromAssoc X c (podFromAPI X c pod) = Some ids \<and>
     c' = c\<lparr>deleteQueue := deleteQueue c @ expectedRequests clock (ObjectMeta.Name pod) 0 ids (Pods c),
            telemetryBuilder := tb\<rparr>"
proof -
  from assms obtain ids where ids: "getIdentifiersFromAssoc X c (podFromAPI X c pod) = Some ids"
    and c': "c' = forgetLoop clock (ObjectMeta.Name pod) 0 ids c"
    by (auto simp: forgetPod_def Let_def split: option.splits)
  from forgetLoop_frame[of clock "ObjectMeta.Name pod" 0 ids c] obtain tb where
    "forgetLoop clock (ObjectMeta.Name pod) 0 ids c =
       c\<lparr>deleteQueue := deleteQueue c @ expectedRequests clock (ObjectMeta.Name pod) 0 ids (Pods c),
         telemetryBuilder := tb\<rparr>" ..
  with ids c' show ?thesis by (intro exI[of _ ids] exI[of _ tb]) simp
qed


lemma forgetPod_total:
  assumes "\<forall>a \<in> set (Associations c). length (Sources a) \<le> PodIdentifierMaxLength X"
  shows "forgetPod X clock c pod \<noteq> None"
proof -
  from identifiersFromAssoc_total[OF assms, of "podFromAPI X c pod"]
  show ?thesis by (auto simp: forgetPod_def getIdentifiersFromAssoc_def Let_def)
qed

subsection \<open>What the handlers leave unchanged\<close>

lemma Pods_counterAdd [simp]: "Pods (counterAdd m c) = Pods c"
  by (simp add: counterAdd_def)

lemma Pods_recordPodTableSize [simp]: "Pods (recordPodTableSize c) = Pods c"
  by (simp add: recordPodTableSize_def)

lemma Pods_forgetPod:
  assumes "forgetPod X clock c pod = Some c'"
  shows "Pods c' = Pods c"
proof -
  from forgetPod_char[OF assms] obtain ids tb where
    "c' = c\<lparr>deleteQueue := deleteQueue c @ expectedRequests clock (ObjectMeta.Name pod) 0 ids (Pods c),
            telemetryBuilder := tb\<rparr>" by blast
  then show ?thesis by simp
qed

lemma deleteQueue_forgetPod:
  assumes "forgetPod X clock c pod = Some c'"
  shows "\<exists>ids. getIdentifiersFromAssoc X c (podFromAPI X c pod) = Some ids \<and>
     deleteQueue c' = deleteQueue c @ expectedRequests clock (ObjectMeta.Name pod) 0 ids (Pods c)"
proof -
  from forgetPod_char[OF assms] obtain ids tb where
    ids: "getIdentifiersFromAssoc X c (podFromAPI X c pod) = Some ids" and
    "c' = c\<lparr>deleteQueue := deleteQueue c @ expectedRequests clock (ObjectMeta.Name pod) 0 ids (Pods c),
            telemetryBuilder := tb\<rparr>" by blast
  then have "deleteQueue c' = deleteQueue c @ expectedRequests clock (ObjectMeta.Name pod) 0 ids (Pods c)"
    by simp
  with ids show ?thesis by blast
qed

lemma Pods_handlePodDelete:
  assumes "handlePodDelete X clock c ob = Some c'"
  shows "Pods c' = Pods c"
proof (cases "ignoreDeletedFinalStateUnknown ob")
  case (PodObj pod)
  with assms obtain c2 where f: "forgetPod X clock (counterAdd OtelsvcK8sPodDeleted c) pod = Some c2"
    and c': "c' = recordPodTableSize c2"
    by (auto simp: handlePodDelete_def Let_def split: option.splits)
  from Pods_forgetPod[OF f] c' show ?thesis by simp
qed (use assms in \<open>auto simp: handlePodDelete_def Let_def\<close>)

lemma dom_handlePodAdd:
  assumes "handlePodAdd X c ob = Some c'"
  shows "dom (Pods c) \<subseteq> dom (Pods c')"
proof (cases ob)
  case (PodObj pod)
  with assms obtain c2 where f: "addOrUpdatePod X (counterAdd OtelsvcK8sPodAdded c) pod = Some c2"
    and c': "c' = recordPodTableSize c2"
    by (auto simp: handlePodAdd_def Let_def split: option.splits)
  from dom_addOrUpdatePod[OF f] c' show ?thesis by simp
qed (use assms in \<open>auto simp: handlePodAdd_def Let_def\<close>)

lemma dom_handlePodUpdate:
  assumes "handlePodUpdate X c old new = Some c'"
  shows "dom (Pods c) \<subseteq> dom (Pods c')"
proof (cases new)
  case (PodObj pod)
  with assms obtain c2 where f: "addOrUpdatePod X (counterAdd OtelsvcK8sPodUpdated c) pod = Some c2"
    and c': "c' = recordPodTableSize c2"
    by (auto simp: handlePodUpdate_def Let_def split: option.splits)
  from dom_addOrUpdatePod[OF f] c' show ?thesis by simp
qed (use assms in \<open>auto simp: handlePodUpdate_def Let_def\<close>)

lemma Pods_other_handlers:
  "Pods (handleNamespaceAdd X c ob) = Pods c"
  "Pods (handleNamespaceUpdate X c old new) = Pods c"
  "Pods (handleNamespaceDelete c ob) = Pods c"
  "Pods (handleNodeAdd X c ob) = Pods c"
  "Pods (handleNodeUpdate X c old new) = Pods c"
  "Pods (handleNodeDelete c ob) = Pods c"
  "Pods (handleDeploymentAdd X c ob) = Pods c"
  "Pods (handleDeploymentUpdate X c old new) = Pods c"
  "Pods (handleDeploymentDelete c ob) = Pods c"
  "Pods (handleStatefulSetAdd X c ob) = Pods c"
  "Pods (handleStatefulSetUpdate X c old new) = Pods c"
  "Pods (handleStatefulSetDelete c ob) = Pods c"
  "Pods (handleReplicaSetAdd c ob) = Pods c"
  "Pods (handleReplicaSetUpdate c old new) = Pods c"
  "Pods (handleReplicaSetDelete c ob) = Pods c"
  by (simp_all add: handleNamespaceAdd_def handleNamespaceUpdate_def handleNamespaceDelete_def
        handleNodeAdd_def handleNodeUpdate_def handleNodeDelete_def
        handleDeploymentAdd_def handleDeploymentUpdate_def handleDeploymentDelete_def
        handleStatefulSetAdd_def handleStatefulSetUpdate_def handleStatefulSetDelete_def
        handleReplicaSetAdd_def handleReplicaSetUpdate_def handleReplicaSetDelete_def
        addOrUpdateNamespace_def addOrUpdateNode_def addOrUpdateDeployment_def
        addOrUpdateStatefulSet_def addOrUpdateReplicaSet_def Let_def
        split: obj.splits option.splits)

lemma Pods_GetPod: "Pods (snd (GetPod c i)) = Pods c"
  by (simp add: GetPod_def split: option.splits)

lemma dom_deliver:
  assumes "\<not> isTimerFired ev" "deliver X c ev = Some c'"
  shows "dom (Pods c) \<subseteq> dom (Pods c')"
proof (cases ev)
  case (PodAdd ob)
  with assms(2) show ?thesis using dom_handlePodAdd[of X c ob c'] by (auto split: if_splits)
next
  case (PodUpdate old new)
  with assms(2) show ?thesis using dom_handlePodUpdate[of X c old new c'] by (auto split: if_splits)
next
  case (PodDelete ob clock)
  with assms(2) show ?thesis using Pods_handlePodDelete[of X clock c ob c'] by (auto split: if_splits)
next
  case (TimerFired now)
  with assms(1) show ?thesis by simp
qed (use assms(2) in \<open>auto simp: Pods_other_handlers Pods_GetPod\<close>)

lemma expectedRequests_mem:
  "d \<in> set (expectedRequests clock name k ids pods) \<Longrightarrow>
   \<exists>q. pods (id' d) = Some q \<and> \<not> Ignore q \<and> Pod.Name q = name \<and> podName d = name \<and> id' d \<in> set ids"
proof (induction ids arbitrary: k)
  case Nil
  then show ?case by simp
next
  case (Cons i ids)
  from Cons.prems consider
    (here) "d \<in> set (case pods i of
        Some p \<Rightarrow> if \<not> Ignore p \<and> Pod.Name p = name
                   then [\<lparr>id' = i, podName = name, ts = clock k\<rparr>] else []
      | None \<Rightarrow> [])"
    | (later) "d \<in> set (expectedRequests clock name (Suc k) ids pods)"
    by auto
  then show ?case
  proof cases
    case here
    then show ?thesis by (cases "pods i") (auto split: if_splits)
  next
    case later
    from Cons.IH[OF later] show ?thesis by auto
  qed
qed

subsection \<open>What a scan applies\<close>

lemma toDelete_old: "d \<in> set (toDelete now g q) \<Longrightarrow> ts d + g \<le> now"
  unfolding toDelete_takeWhile by (auto dest: set_takeWhileD)

lemma toDelete_subset: "set (toDelete now g q) \<subseteq> set q"
  by (simp add: toDelete_def set_take_subset)

lemma queue_split:
  "deleteQueue c = toDelete now g (deleteQueue c) @ deleteQueue (deleteTick now g c)"
  by (simp add: toDelete_takeWhile deleteQueue_deleteTick)

lemma young_stays:
  assumes "d \<in> set (deleteQueue c)" "now < ts d + g"
  shows "d \<in> set (deleteQueue (deleteTick now g c))"
proof -
  from assms(2) toDelete_old[of d now g "deleteQueue c"]
  have "d \<notin> set (toDelete now g (deleteQueue c))" by auto
  moreover from assms(1) queue_split[of c now g]
  have "d \<in> set (toDelete now g (deleteQueue c)) \<union> set (deleteQueue (deleteTick now g c))"
    by (metis set_append)
  ultimately show ?thesis by simp
qed

lemma sorted_old_applied:
  assumes "sorted (map ts q)" "d \<in> set q" "ts d + g \<le> now"
  shows "d \<in> set (toDelete now g q)"
  using assms
proof (induction q)
  case Nil
  then show ?case by simp
next
  case (Cons e q)
  show ?case
  proof (cases "d = e")
    case True
    with Cons.prems(3) show ?thesis by (simp add: toDelete_takeWhile)
  next
    case False
    with Cons.prems(2) have dq: "d \<in> set q" by simp
    with Cons.prems(1) have "ts e \<le> ts d" by auto
    with Cons.prems(3) have e: "ts e + g \<le> now" by simp
    from Cons.prems(1) have "sorted (map ts q)" by simp
    from Cons.IH[OF this dq Cons.prems(3)] e show ?thesis by (simp add: toDelete_takeWhile)
  qed
qed

lemma applied_gone:
  assumes "d \<in> set (toDelete now g (deleteQueue c))" "Pods (deleteTick now g c) (id' d) = Some p"
  shows "Pod.Name p \<noteq> podName d"
  using assms by (auto simp: Pods_deleteTick deletePods_char split: option.splits if_splits)

lemma no_old_request_kept:
  assumes "\<forall>d \<in> set (deleteQueue c). id' d = i \<longrightarrow> now < ts d + g"
  shows "Pods (deleteTick now g c) i = Pods c i"
proof -
  have "\<not> (\<exists>d \<in> set (toDelete now g (deleteQueue c)). id' d = i)"
    using assms toDelete_old[of _ now g "deleteQueue c"] toDelete_subset[of now g "deleteQueue c"]
    by fastforce
  then show ?thesis
    by (auto simp: Pods_deleteTick deletePods_char split: option.splits)
qed

subsection \<open>When the resolver skips an association\<close>

lemma resourceAttr_fst: "fst (resourceAttr pod i s k) = fst (resourceAttr pod 0 s 0)"
  by (simp add: resourceAttr_def split: option.splits)

lemma sourceStep_char:
  assumes "sourceStep n pod i s (ret, k, skip) = Some (ret', k', skip')"
  shows "skip' = (skip \<or> sourceSkips pod (k \<noteq> -1) s)"
    and "(k' \<noteq> -1) = (k \<noteq> -1 \<or> isContainerIDSource s)"
    and "length ret' = length ret"
    and "k' = k \<or> (k' = int i \<and> i < n \<and> isContainerIDSource s)"
proof -
  show "skip' = (skip \<or> sourceSkips pod (k \<noteq> -1) s)"
  proof (cases "From s")
    case ConnectionSource
    with assms show ?thesis
      by (auto simp: sourceStep_def sourceSkips_def split: if_splits)
  next
    case ResourceSource
    show ?thesis
    proof (cases "AssociationSource.Name s = ContainerIDKey")
      case True
      with assms ResourceSource show ?thesis
        by (auto simp: sourceStep_def sourceSkips_def resourceAttr_container split: if_splits)
    next
      case False
      obtain attr k1 where r: "resourceAttr pod i s k = (attr, k1)" by (cases "resourceAttr pod i s k")
      with resourceAttr_other[OF False, of pod i k] have k1: "k1 = k" by simp
      from r resourceAttr_fst[of pod i s k] have a: "fst (resourceAttr pod 0 s 0) = attr" by simp
      from assms ResourceSource False r k1 a show ?thesis
        by (auto simp: sourceStep_def sourceSkips_def split: if_splits)
    qed
  next
    case (OtherSource x)
    with assms show ?thesis by (auto simp: sourceStep_def sourceSkips_def)
  qed
next
  show "(k' \<noteq> -1) = (k \<noteq> -1 \<or> isContainerIDSource s)"
  proof (cases "From s")
    case ConnectionSource
    with assms show ?thesis
      by (auto simp: sourceStep_def isContainerIDSource_def split: if_splits)
  next
    case ResourceSource
    show ?thesis
    proof (cases "AssociationSource.Name s = ContainerIDKey")
      case True
      with assms ResourceSource show ?thesis
        by (auto simp: sourceStep_def isContainerIDSource_def resourceAttr_container split: if_splits)
    next
      case False
      obtain attr k1 where r: "resourceAttr pod i s k = (attr, k1)" by (cases "resourceAttr pod i s k")
      with resourceAttr_other[OF False, of pod i k] have k1: "k1 = k" by simp
      from assms ResourceSource False r k1 show ?thesis
        by (auto simp: sourceStep_def isContainerIDSource_def split: if_splits)
    qed
  next
    case (OtherSource x)
    with assms show ?thesis by (auto simp: sourceStep_def isContainerIDSource_def)
  qed
next
  show "length ret' = length ret"
    using assms by (auto simp: sourceStep_def split: FromKind.splits prod.splits if_splits)
next
  show "k' = k \<or> (k' = int i \<and> i < n \<and> isContainerIDSource s)"
  proof (cases "From s")
    case ConnectionSource
    with assms show ?thesis
      by (auto simp: sourceStep_def split: if_splits)
  next
    case ResourceSource
    show ?thesis
    proof (cases "AssociationSource.Name s = ContainerIDKey")
      case True
      with assms ResourceSource show ?thesis
        by (auto simp: sourceStep_def isContainerIDSource_def resourceAttr_container split: if_splits)
    next
      case False
      obtain attr k1 where r: "resourceAttr pod i s k = (attr, k1)" by (cases "resourceAttr pod i s k")
      with resourceAttr_other[OF False, of pod i k] have k1: "k1 = k" by simp
      from assms ResourceSource False r k1 show ?thesis
        by (auto simp: sourceStep_def split: if_splits)
    qed
  next
    case (OtherSource x)
    with assms show ?thesis by (auto simp: sourceStep_def)
  qed
qed

lemma sourcesLoop_char:
  assumes "sourcesLoop n pod i ss (ret, k, skip) = Some (ret', k', skip')"
  shows "skip' = (skip \<or> ruleSkipped pod (k \<noteq> -1) ss)
     \<and> (k' \<noteq> -1) = (k \<noteq> -1 \<or> (\<exists>s \<in> set ss. isContainerIDSource s))
     \<and> length ret' = length ret
     \<and> (k' = k \<or> (\<exists>j. i \<le> j \<and> j < i + length ss \<and> j < n \<and> k' = int j \<and> isContainerIDSource (ss ! (j - i))))"
  using assms
proof (induction ss arbitrary: i ret k skip)
  case Nil
  then show ?case by simp
next
  case (Cons s ss)
  from Cons.prems obtain r1 k1 s1 where st: "sourceStep n pod i s (ret, k, skip) = Some (r1, k1, s1)"
    and l: "sourcesLoop n pod (Suc i) ss (r1, k1, s1) = Some (ret', k', skip')"
    by (auto split: option.splits)
  note S = sourceStep_char[OF st]
  note L = Cons.IH[OF l]
  have 1: "skip' = (skip \<or> ruleSkipped pod (k \<noteq> -1) (s # ss))"
    using S(1) S(2) L by auto
  have 2: "(k' \<noteq> -1) = (k \<noteq> -1 \<or> (\<exists>s \<in> set (s # ss). isContainerIDSource s))"
    using S(2) L by auto
  have 3: "length ret' = length ret" using S(3) L by simp
  have 4: "k' = k \<or> (\<exists>j. i \<le> j \<and> j < i + length (s # ss) \<and> j < n \<and> k' = int j \<and> isContainerIDSource ((s # ss) ! (j - i)))"
  proof -
    from L have "k' = k1 \<or> (\<exists>j. Suc i \<le> j \<and> j < Suc i + length ss \<and> j < n \<and> k' = int j \<and> isContainerIDSource (ss ! (j - Suc i)))"
      by blast
    then show ?thesis
    proof
      assume "k' = k1"
      with S(4) show ?thesis by auto
    next
      assume "\<exists>j. Suc i \<le> j \<and> j < Suc i + length ss \<and> j < n \<and> k' = int j \<and> isContainerIDSource (ss ! (j - Suc i))"
      then obtain j where j: "Suc i \<le> j" "j < Suc i + length ss" "j < n" "k' = int j"
        "isContainerIDSource (ss ! (j - Suc i))" by blast
      from j(1) have "(s # ss) ! (j - i) = ss ! (j - Suc i)" by (simp add: Suc_diff_le)
      with j have "i \<le> j \<and> j < i + length (s # ss) \<and> j < n \<and> k' = int j \<and> isContainerIDSource ((s # ss) ! (j - i))"
        by simp
      then show ?thesis by blast
    qed
  qed
  from 1 2 3 4 show ?case by blast
qed

lemma assocIdentifiers_containerID:
  assumes "assocIdentifiers n pod assoc = Some new" "\<exists>s \<in> set (Sources assoc). isContainerIDSource s"
  shows "(ruleSkipped pod False (Sources assoc) \<longrightarrow> new = []) \<and>
         (\<not> ruleSkipped pod False (Sources assoc) \<longrightarrow>
            (\<exists>ret j. j < length (Sources assoc) \<and> j < n \<and> isContainerIDSource (Sources assoc ! j) \<and>
               length ret = n \<and>
               new = map (\<lambda>cID. ret[j := containerIDAttribute cID]) (map fst (ByID (Containers pod)))))"
proof -
  from assms(1) obtain ret k skip where
    l: "sourcesLoop n pod 0 (Sources assoc) (zeroPodIdentifier n, -1, False) = Some (ret, k, skip)"
    and new: "new = (if \<not> skip then (if k \<noteq> -1
                   then map (\<lambda>cID. ret[nat k := containerIDAttribute cID]) (map fst (ByID (Containers pod)))
                   else [ret]) else [])"
    by (auto simp: assocIdentifiers_def split: option.splits)
  from sourcesLoop_char[OF l] assms(2) have
    skip: "skip = ruleSkipped pod False (Sources assoc)" and k: "k \<noteq> -1"
    and len: "length ret = n"
    and pos: "k = -1 \<or> (\<exists>j. j < length (Sources assoc) \<and> j < n \<and> k = int j \<and> isContainerIDSource (Sources assoc ! j))"
    by (auto simp: zeroPodIdentifier_def)
  from pos k obtain j where j: "j < length (Sources assoc)" "j < n" "k = int j"
    "isContainerIDSource (Sources assoc ! j)" by blast
  show ?thesis
  proof (cases "ruleSkipped pod False (Sources assoc)")
    case True
    with skip new show ?thesis by simp
  next
    case False
    with skip new k j(3) have
      "new = map (\<lambda>cID. ret[j := containerIDAttribute cID]) (map fst (ByID (Containers pod)))"
      by simp
    with j len False show ?thesis by blast
  qed
qed

text \<open>The position of the fan-out and the identifier it is made from.\<close>

lemma sourceStep_container:
  assumes "sourceStep n pod i s (ret, k, skip) = Some (ret', k', skip')"
  shows "k' = (if isContainerIDSource s then int i else k)"
proof (cases "From s")
  case ConnectionSource
  with assms show ?thesis
    by (auto simp: sourceStep_def isContainerIDSource_def split: if_splits)
next
  case ResourceSource
  show ?thesis
  proof (cases "AssociationSource.Name s = ContainerIDKey")
    case True
    with assms ResourceSource show ?thesis
      by (auto simp: sourceStep_def isContainerIDSource_def resourceAttr_container split: if_splits)
  next
    case False
    obtain attr k1 where r: "resourceAttr pod i s k = (attr, k1)" by (cases "resourceAttr pod i s k")
    with resourceAttr_other[OF False, of pod i k] have k1: "k1 = k" by simp
    from assms ResourceSource False r k1 show ?thesis
      by (auto simp: sourceStep_def isContainerIDSource_def split: if_splits)
  qed
next
  case (OtherSource x)
  with assms show ?thesis by (auto simp: sourceStep_def isContainerIDSource_def)
qed

lemma sourcesLoop_last:
  assumes "sourcesLoop n pod i ss (ret, k, skip) = Some (ret', k', skip')"
  shows "if \<exists>s \<in> set ss. isContainerIDSource s
         then \<exists>j. j < length ss \<and> k' = int (i + j) \<and> isContainerIDSource (ss ! j) \<and>
                (\<forall>l. j < l \<and> l < length ss \<longrightarrow> \<not> isContainerIDSource (ss ! l))
         else k' = k"
  using assms
proof (induction ss arbitrary: i ret k skip)
  case Nil
  then show ?case by simp
next
  case (Cons s ss)
  from Cons.prems obtain r1 k1 s1 where st: "sourceStep n pod i s (ret, k, skip) = Some (r1, k1, s1)"
    and l: "sourcesLoop n pod (Suc i) ss (r1, k1, s1) = Some (ret', k', skip')"
    by (auto split: option.splits)
  note k1 = sourceStep_container[OF st]
  note IH = Cons.IH[OF l]
  show ?case
  proof (cases "\<exists>s \<in> set ss. isContainerIDSource s")
    case True
    with IH obtain j where j: "j < length ss" "k' = int (Suc i + j)" "isContainerIDSource (ss ! j)"
      "\<forall>l. j < l \<and> l < length ss \<longrightarrow> \<not> isContainerIDSource (ss ! l)" by auto
    have later: "\<not> isContainerIDSource ((s # ss) ! l)" if "Suc j < l" "l < length (s # ss)" for l
    proof -
      from that obtain l' where l': "l = Suc l'" by (cases l) auto
      with that have "j < l'" "l' < length ss" by simp_all
      with j(4) l' show ?thesis by simp
    qed
    have "Suc j < length (s # ss) \<and> k' = int (i + Suc j) \<and> isContainerIDSource ((s # ss) ! Suc j) \<and>
          (\<forall>l. Suc j < l \<and> l < length (s # ss) \<longrightarrow> \<not> isContainerIDSource ((s # ss) ! l))"
      using j(1,2,3) later by simp
    then have "\<exists>j. j < length (s # ss) \<and> k' = int (i + j) \<and> isContainerIDSource ((s # ss) ! j) \<and>
          (\<forall>l. j < l \<and> l < length (s # ss) \<longrightarrow> \<not> isContainerIDSource ((s # ss) ! l))"
      by (rule exI[of _ "Suc j"])
    with True show ?thesis by simp
  next
    case False
    with IH have k': "k' = k1" by simp
    show ?thesis
    proof (cases "isContainerIDSource s")
      case True
      with k1 k' have kk: "k' = int i" by simp
      have later: "\<not> isContainerIDSource ((s # ss) ! l)" if "0 < l" "l < length (s # ss)" for l
      proof -
        from that obtain l' where l': "l = Suc l'" by (cases l) auto
        with that have "l' < length ss" by simp
        then have "ss ! l' \<in> set ss" by simp
        with False l' show ?thesis by auto
      qed
      have "0 < length (s # ss) \<and> k' = int (i + 0) \<and> isContainerIDSource ((s # ss) ! 0) \<and>
          (\<forall>l. 0 < l \<and> l < length (s # ss) \<longrightarrow> \<not> isContainerIDSource ((s # ss) ! l))"
        using kk True later by simp
      then have "\<exists>j. j < length (s # ss) \<and> k' = int (i + j) \<and> isContainerIDSource ((s # ss) ! j) \<and>
          (\<forall>l. j < l \<and> l < length (s # ss) \<longrightarrow> \<not> isContainerIDSource ((s # ss) ! l))"
        by (rule exI[of _ 0])
      with True show ?thesis by simp
    next
      case nc: False
      with k1 k' False show ?thesis by simp
    qed
  qed
qed

lemma sourceStep_ret:
  assumes "sourceStep n pod i s (ret, k, skip) = Some (ret', k', skip')" "\<not> skip'"
  shows "ret' = (case From s of OtherSource x \<Rightarrow> ret | _ \<Rightarrow> ret[i := sourceAttribute pod s])"
proof (cases "From s")
  case ConnectionSource
  with assms show ?thesis
    by (auto simp: sourceStep_def sourceAttribute_def split: if_splits)
next
  case ResourceSource
  obtain attr k1 where r: "resourceAttr pod i s k = (attr, k1)" by (cases "resourceAttr pod i s k")
  from r resourceAttr_fst[of pod i s k] have a: "fst (resourceAttr pod 0 s 0) = attr" by simp
  from assms ResourceSource r a show ?thesis
    by (auto simp: sourceStep_def sourceAttribute_def split: if_splits)
next
  case (OtherSource x)
  with assms show ?thesis by (auto simp: sourceStep_def)
qed

lemma sourcesLoop_ret:
  assumes "sourcesLoop n pod i ss (ret, k, skip) = Some (ret', k', skip')" "\<not> skip'"
    "l < length ret"
  shows "ret' ! l =
     (if i \<le> l \<and> l < i + length ss \<and> (\<forall>x. From (ss ! (l - i)) \<noteq> OtherSource x)
      then sourceAttribute pod (ss ! (l - i)) else ret ! l)"
  using assms
proof (induction ss arbitrary: i ret k skip)
  case Nil
  then show ?case by auto
next
  case (Cons s ss)
  from Cons.prems(1) obtain r1 k1 s1 where st: "sourceStep n pod i s (ret, k, skip) = Some (r1, k1, s1)"
    and lp: "sourcesLoop n pod (Suc i) ss (r1, k1, s1) = Some (ret', k', skip')"
    by (auto split: option.splits)
  have ns1: "\<not> s1"
  proof
    assume s1
    with lp have "sourcesLoop n pod (Suc i) ss (r1, k1, True) = Some (ret', k', skip')" by simp
    from sourcesLoop_skip_mono[OF this] Cons.prems(2) show False by simp
  qed
  note r1 = sourceStep_ret[OF st ns1]
  from sourceStep_char(3)[OF st] Cons.prems(3) have len1: "l < length r1" by simp
  note IH = Cons.IH[OF lp Cons.prems(2) len1]
  show ?case
  proof (cases "l = i")
    case True
    with IH have a: "ret' ! l = r1 ! l" by simp
    show ?thesis
    proof (cases "\<forall>x. From s \<noteq> OtherSource x")
      case True
      with r1 have "r1 = ret[i := sourceAttribute pod s]" by (cases "From s") auto
      with a \<open>l = i\<close> Cons.prems(3) True show ?thesis by simp
    next
      case False
      with r1 have "r1 = ret" by (cases "From s") auto
      with a \<open>l = i\<close> False show ?thesis by auto
    qed
  next
    case False
    have r1l: "r1 ! l = ret ! l"
      using r1 False by (cases "From s") auto
    show ?thesis
    proof (cases "Suc i \<le> l")
      case True
      then have "(s # ss) ! (l - i) = ss ! (l - Suc i)" by (simp add: Suc_diff_le)
      with IH r1l True False show ?thesis by auto
    next
      case F: False
      with False have "l < i" by simp
      with IH r1l show ?thesis by simp
    qed
  qed
qed

lemma sourcesLoop_ruleIdentifier:
  assumes "sourcesLoop n pod 0 ss (zeroPodIdentifier n, -1, False) = Some (ret, k, False)"
  shows "ret = ruleIdentifier n pod ss"
proof (rule nth_equalityI)
  from sourcesLoop_char[OF assms] show len: "length ret = length (ruleIdentifier n pod ss)"
    by (simp add: zeroPodIdentifier_def ruleIdentifier_def)
  fix l assume "l < length ret"
  with len have l: "l < n" by (simp add: ruleIdentifier_def)
  then have "l < length (zeroPodIdentifier n)" by (simp add: zeroPodIdentifier_def)
  from sourcesLoop_ret[OF assms _ this] l
  have "ret ! l = (if l < length ss \<and> (\<forall>x. From (ss ! l) \<noteq> OtherSource x)
      then sourceAttribute pod (ss ! l) else zeroAttribute)"
    by (simp add: zeroPodIdentifier_def)
  moreover have "sourceAttribute pod (ss ! l) = zeroAttribute" if "From (ss ! l) = OtherSource x" for x
    using that by (simp add: sourceAttribute_def)
  ultimately show "ret ! l = ruleIdentifier n pod ss ! l"
    using l by (auto simp: ruleIdentifier_def)
qed

lemma assocIdentifiers_fan_out:
  assumes "assocIdentifiers n pod assoc = Some new" "\<exists>s \<in> set (Sources assoc). isContainerIDSource s"
    "\<not> ruleSkipped pod False (Sources assoc)"
  shows "\<exists>j. j < length (Sources assoc) \<and> j < n \<and> isContainerIDSource (Sources assoc ! j) \<and>
           (\<forall>l. j < l \<and> l < length (Sources assoc) \<longrightarrow> \<not> isContainerIDSource (Sources assoc ! l)) \<and>
           new = map (\<lambda>cID. (ruleIdentifier n pod (Sources assoc))[j := containerIDAttribute cID])
                     (map fst (ByID (Containers pod)))"
proof -
  from assms(1) obtain ret k skip where
    l: "sourcesLoop n pod 0 (Sources assoc) (zeroPodIdentifier n, -1, False) = Some (ret, k, skip)"
    and new: "new = (if \<not> skip then (if k \<noteq> -1
                   then map (\<lambda>cID. ret[nat k := containerIDAttribute cID]) (map fst (ByID (Containers pod)))
                   else [ret]) else [])"
    by (auto simp: assocIdentifiers_def split: option.splits)
  from sourcesLoop_char[OF l] assms(3) have skip: "\<not> skip" by simp
  with l have l': "sourcesLoop n pod 0 (Sources assoc) (zeroPodIdentifier n, -1, False) = Some (ret, k, False)"
    by simp
  from sourcesLoop_ruleIdentifier[OF l'] have ret: "ret = ruleIdentifier n pod (Sources assoc)" .
  from sourcesLoop_last[OF l] assms(2) obtain j where
    j: "j < length (Sources assoc)" "k = int j" "isContainerIDSource (Sources assoc ! j)"
    "\<forall>l. j < l \<and> l < length (Sources assoc) \<longrightarrow> \<not> isContainerIDSource (Sources assoc ! l)"
    by auto
  from sourcesLoop_char[OF l] j(2) have jn: "j < n" by auto
  from new skip j(2) ret have
    "new = map (\<lambda>cID. (ruleIdentifier n pod (Sources assoc))[j := containerIDAttribute cID])
                     (map fst (ByID (Containers pod)))"
    by simp
  with j jn show ?thesis by blast
qed

lemma assocLoop_each:
  "assocLoop n pod as [] = Some r \<Longrightarrow> a \<in> set as \<Longrightarrow>
     \<exists>new. assocIdentifiers n pod a = Some new \<and> set new \<subseteq> set r"
proof (induction as arbitrary: r)
  case Nil
  then show ?case by simp
next
  case (Cons b as)
  from Cons.prems(1) obtain new rest where b: "assocIdentifiers n pod b = Some new"
    and rest: "assocLoop n pod as [] = Some rest" and r: "r = new @ rest"
    unfolding assocLoop_Cons by (auto split: option.splits)
  show ?case
  proof (cases "a = b")
    case True
    with b r show ?thesis by auto
  next
    case False
    with Cons.prems(2) have "a \<in> set as" by simp
    from Cons.IH[OF rest this] r show ?thesis by auto
  qed
qed

lemma identifiersFromAssoc_each:
  "identifiersFromAssoc n as pod = Some ids \<Longrightarrow> a \<in> set as \<Longrightarrow>
     \<exists>new. assocIdentifiers n pod a = Some new \<and> set new \<subseteq> set ids"
  using assocLoop_each[of n pod as _ a]
  by (auto simp: identifiersFromAssoc_def split: option.splits)

lemma containerIDAttribute_inj: "containerIDAttribute a = containerIDAttribute b \<Longrightarrow> a = b"
  by (simp add: containerIDAttribute_def PodIdentifierAttributeFromSource_def)

lemma fan_out_distinct:
  assumes "j < length ret" "distinct keys"
  shows "distinct (map (\<lambda>cID. ret[j := containerIDAttribute cID]) keys)"
proof -
  have "inj_on (\<lambda>cID. ret[j := containerIDAttribute cID]) (set keys)"
  proof (rule inj_onI)
    fix a b
    assume "ret[j := containerIDAttribute a] = ret[j := containerIDAttribute b]"
    then have "ret[j := containerIDAttribute a] ! j = ret[j := containerIDAttribute b] ! j" by simp
    with assms(1) have "containerIDAttribute a = containerIDAttribute b" by simp
    then show "a = b" by (rule containerIDAttribute_inj)
  qed
  with assms(2) show ?thesis by (simp add: distinct_map)
qed

subsection \<open>Runs of Add and Update notifications for one pod UID\<close>








subsection \<open>Clients without replicasets\<close>

lemma sameReplicaSets_refl: "sameReplicaSets c c"
  by (simp add: sameReplicaSets_def)

lemma sameReplicaSets_trans: "sameReplicaSets a b \<Longrightarrow> sameReplicaSets b c \<Longrightarrow> sameReplicaSets a c"
  by (simp add: sameReplicaSets_def)

lemma sameReplicaSets_counterAdd: "sameReplicaSets c (counterAdd m c)"
  by (simp add: sameReplicaSets_def counterAdd_def)

lemma sameReplicaSets_recordPodTableSize: "sameReplicaSets c (recordPodTableSize c)"
  by (simp add: sameReplicaSets_def recordPodTableSize_def)

lemma sameReplicaSets_addOrUpdatePod:
  assumes "addOrUpdatePod X c pod = Some c'"
  shows "sameReplicaSets c c'"
proof -
  from addOrUpdatePod_char[OF assms] obtain pods where "c' = c\<lparr>Pods := pods\<rparr>" by blast
  then show ?thesis by (simp add: sameReplicaSets_def)
qed

lemma sameReplicaSets_forgetPod:
  assumes "forgetPod X clock c pod = Some c'"
  shows "sameReplicaSets c c'"
proof -
  from forgetPod_char[OF assms] obtain ids tb where
    "c' = c\<lparr>deleteQueue := deleteQueue c @ expectedRequests clock (ObjectMeta.Name pod) 0 ids (Pods c),
            telemetryBuilder := tb\<rparr>" by blast
  then show ?thesis by (simp add: sameReplicaSets_def)
qed

lemma sameReplicaSets_pod_handlers:
  "handlePodAdd X c ob = Some c' \<Longrightarrow> sameReplicaSets c c'"
  "handlePodUpdate X c old new = Some c' \<Longrightarrow> sameReplicaSets c c'"
  "handlePodDelete X clock c ob = Some c' \<Longrightarrow> sameReplicaSets c c'"
proof -
  show "sameReplicaSets c c'" if h: "handlePodAdd X c ob = Some c'"
  proof (cases ob)
    case (PodObj pod)
    with h obtain c1 where a: "addOrUpdatePod X (counterAdd OtelsvcK8sPodAdded c) pod = Some c1"
      and c': "c' = recordPodTableSize c1"
      by (auto simp: handlePodAdd_def Let_def split: option.splits)
    from sameReplicaSets_addOrUpdatePod[OF a] c' show ?thesis
      by (simp add: sameReplicaSets_def counterAdd_def recordPodTableSize_def)
  qed (use h in \<open>auto simp: handlePodAdd_def Let_def sameReplicaSets_def counterAdd_def recordPodTableSize_def\<close>)
  show "sameReplicaSets c c'" if h: "handlePodUpdate X c old new = Some c'"
  proof (cases new)
    case (PodObj pod)
    with h obtain c1 where a: "addOrUpdatePod X (counterAdd OtelsvcK8sPodUpdated c) pod = Some c1"
      and c': "c' = recordPodTableSize c1"
      by (auto simp: handlePodUpdate_def Let_def split: option.splits)
    from sameReplicaSets_addOrUpdatePod[OF a] c' show ?thesis
      by (simp add: sameReplicaSets_def counterAdd_def recordPodTableSize_def)
  qed (use h in \<open>auto simp: handlePodUpdate_def Let_def sameReplicaSets_def counterAdd_def recordPodTableSize_def\<close>)
  show "sameReplicaSets c c'" if h: "handlePodDelete X clock c ob = Some c'"
  proof (cases "ignoreDeletedFinalStateUnknown ob")
    case (PodObj pod)
    with h obtain c1 where a: "forgetPod X clock (counterAdd OtelsvcK8sPodDeleted c) pod = Some c1"
      and c': "c' = recordPodTableSize c1"
      by (auto simp: handlePodDelete_def Let_def split: option.splits)
    from sameReplicaSets_forgetPod[OF a] c' show ?thesis
      by (simp add: sameReplicaSets_def counterAdd_def recordPodTableSize_def)
  qed (use h in \<open>auto simp: handlePodDelete_def Let_def sameReplicaSets_def counterAdd_def recordPodTableSize_def\<close>)
qed

lemma sameReplicaSets_other_handlers:
  "sameReplicaSets c (handleNamespaceAdd X c ob)"
  "sameReplicaSets c (handleNamespaceUpdate X c old new)"
  "sameReplicaSets c (handleNamespaceDelete c ob)"
  "sameReplicaSets c (handleNodeAdd X c ob)"
  "sameReplicaSets c (handleNodeUpdate X c old new)"
  "sameReplicaSets c (handleNodeDelete c ob)"
  "sameReplicaSets c (handleDeploymentAdd X c ob)"
  "sameReplicaSets c (handleDeploymentUpdate X c old new)"
  "sameReplicaSets c (handleDeploymentDelete c ob)"
  "sameReplicaSets c (handleStatefulSetAdd X c ob)"
  "sameReplicaSets c (handleStatefulSetUpdate X c old new)"
  "sameReplicaSets c (handleStatefulSetDelete c ob)"
  by (simp_all add: sameReplicaSets_def other_handler_defs counterAdd_def Let_def
        split: obj.splits option.splits)

lemma sameReplicaSets_deleteTick: "sameReplicaSets c (deleteTick now g c)"
  by (simp add: sameReplicaSets_def deleteTick_def recordPodTableSize_def Let_def)

lemma sameReplicaSets_GetPod: "sameReplicaSets c (snd (GetPod c i))"
  by (simp add: sameReplicaSets_def GetPod_def counterAdd_def split: option.splits)

lemma deliver_sameReplicaSets:
  assumes "replicasetInformer c = None" "deliver X c ev = Some c'"
  shows "sameReplicaSets c c'"
proof (cases ev)
  case (PodAdd ob)
  with assms(2) show ?thesis
    using sameReplicaSets_pod_handlers(1)[of X c ob c'] sameReplicaSets_refl[of c]
    by (auto split: if_splits)
next
  case (PodUpdate old new)
  with assms(2) show ?thesis
    using sameReplicaSets_pod_handlers(2)[of X c old new c'] sameReplicaSets_refl[of c]
    by (auto split: if_splits)
next
  case (PodDelete ob clock)
  with assms(2) show ?thesis
    using sameReplicaSets_pod_handlers(3)[of X clock c ob c'] sameReplicaSets_refl[of c]
    by (auto split: if_splits)
next
  case (ReplicaSetAdd ob)
  with assms show ?thesis by (auto simp: running_def sameReplicaSets_refl)
next
  case (ReplicaSetUpdate old new)
  with assms show ?thesis by (auto simp: running_def sameReplicaSets_refl)
next
  case (ReplicaSetDelete ob)
  with assms show ?thesis by (auto simp: running_def sameReplicaSets_refl)
next
  case (TimerFired now)
  with assms(2) show ?thesis by (auto simp: sameReplicaSets_deleteTick)
next
  case (Lookup i)
  with assms(2) show ?thesis by (auto simp: sameReplicaSets_GetPod)
qed (use assms(2) in \<open>auto simp: sameReplicaSets_other_handlers sameReplicaSets_refl\<close>)

lemma deliver_noReplicaSets:
  assumes "noReplicaSets c" "deliver X c ev = Some c'"
  shows "noReplicaSets c'"
proof -
  from assms(1) have "replicasetInformer c = None" by (simp add: noReplicaSets_def)
  from deliver_sameReplicaSets[OF this assms(2)] assms(1) show ?thesis
    by (simp add: sameReplicaSets_def noReplicaSets_def)
qed

lemma run_noReplicaSets:
  "noReplicaSets c \<Longrightarrow> run X c evs = Some c' \<Longrightarrow> noReplicaSets c'"
proof (induction evs arbitrary: c)
  case Nil
  then show ?case by simp
next
  case (Cons ev evs)
  from Cons.prems(2) obtain c1 where d: "deliver X c ev = Some c1" and r: "run X c1 evs = Some c'"
    by (auto split: option.splits)
  from deliver_noReplicaSets[OF Cons.prems(1) d] r Cons.IH show ?case by blast
qed

subsection \<open>Construction, start-up and runs without a deployment rule\<close>

lemma noDeploymentUIDs_addOrUpdatePod:
  assumes "addOrUpdatePod X c pod = Some c'" "ReplicaSets c = Map.empty" "noDeploymentUIDs c"
  shows "noDeploymentUIDs c'"
proof -
  from addOrUpdatePod_char[OF assms(1)] obtain ids pods where
    c': "c' = c\<lparr>Pods := pods\<rparr>"
    and ch: "\<forall>i. pods i =
              (if i \<in> set ids \<and> \<not> (\<exists>q. Pods c i = Some q \<and> Before (Status_StartTime pod) (Pod.StartTime q))
               then Some (podFromAPI X c pod) else Pods c i)"
    by blast
  have "Pod.DeploymentUID p = []" if "pods i = Some p" for i p
  proof (cases "i \<in> set ids \<and> \<not> (\<exists>q. Pods c i = Some q \<and> Before (Status_StartTime pod) (Pod.StartTime q))")
    case True
    with ch that have "p = podFromAPI X c pod" by auto
    with assms(2) show ?thesis by (simp add: podFromAPI_noReplicaSets)
  next
    case False
    with ch that have "Pods c i = Some p" by auto
    with assms(3) show ?thesis by (simp add: noDeploymentUIDs_def)
  qed
  with c' show ?thesis by (simp add: noDeploymentUIDs_def)
qed

lemma noDeploymentUIDs_deleteTick:
  assumes "noDeploymentUIDs c"
  shows "noDeploymentUIDs (deleteTick now g c)"
  unfolding noDeploymentUIDs_def
proof (intro allI impI)
  fix i p
  assume "Pods (deleteTick now g c) i = Some p"
  then have "Pods c i = Some p"
    by (auto simp: Pods_deleteTick deletePods_char split: option.splits if_splits)
  with assms show "Pod.DeploymentUID p = []" by (simp add: noDeploymentUIDs_def)
qed

lemma noDeploymentUIDs_pod_handlers:
  assumes "ReplicaSets c = Map.empty" "noDeploymentUIDs c"
  shows "handlePodAdd X c ob = Some c' \<Longrightarrow> noDeploymentUIDs c'"
    and "handlePodUpdate X c old new = Some c' \<Longrightarrow> noDeploymentUIDs c'"
proof -
  have n: "noDeploymentUIDs (counterAdd m c)" for m
    using assms(2) by (simp add: noDeploymentUIDs_def)
  have r: "ReplicaSets (counterAdd m c) = Map.empty" for m
    using assms(1) by (simp add: counterAdd_def)
  show "noDeploymentUIDs c'" if h: "handlePodAdd X c ob = Some c'"
  proof (cases ob)
    case (PodObj pod)
    with h obtain c1 where a: "addOrUpdatePod X (counterAdd OtelsvcK8sPodAdded c) pod = Some c1"
      and c': "c' = recordPodTableSize c1"
      by (auto simp: handlePodAdd_def Let_def split: option.splits)
    from noDeploymentUIDs_addOrUpdatePod[OF a r n] c' show ?thesis
      by (simp add: noDeploymentUIDs_def)
  qed (use h assms(2) in \<open>auto simp: handlePodAdd_def Let_def noDeploymentUIDs_def\<close>)
  show "noDeploymentUIDs c'" if h: "handlePodUpdate X c old new = Some c'"
  proof (cases new)
    case (PodObj pod)
    with h obtain c1 where a: "addOrUpdatePod X (counterAdd OtelsvcK8sPodUpdated c) pod = Some c1"
      and c': "c' = recordPodTableSize c1"
      by (auto simp: handlePodUpdate_def Let_def split: option.splits)
    from noDeploymentUIDs_addOrUpdatePod[OF a r n] c' show ?thesis
      by (simp add: noDeploymentUIDs_def)
  qed (use h assms(2) in \<open>auto simp: handlePodUpdate_def Let_def noDeploymentUIDs_def\<close>)
qed

lemma deliver_noDeploymentUIDs:
  assumes "noReplicaSets c" "noDeploymentUIDs c" "deliver X c ev = Some c'"
  shows "noDeploymentUIDs c'"
proof -
  from assms(1) have rs: "ReplicaSets c = Map.empty" by (simp add: noReplicaSets_def)
  show ?thesis
  proof (cases ev)
    case (PodAdd ob)
    with assms(2,3) show ?thesis
      using noDeploymentUIDs_pod_handlers(1)[OF rs assms(2), of X ob c']
      by (auto split: if_splits)
  next
    case (PodUpdate old new)
    with assms(2,3) show ?thesis
      using noDeploymentUIDs_pod_handlers(2)[OF rs assms(2), of X old new c']
      by (auto split: if_splits)
  next
    case (PodDelete ob clock)
    with assms(2,3) show ?thesis
      using Pods_handlePodDelete[of X clock c ob c']
      by (auto simp: noDeploymentUIDs_def split: if_splits)
  next
    case (TimerFired now)
    with assms(2,3) show ?thesis by (auto simp: noDeploymentUIDs_deleteTick)
  qed (use assms(2,3) in \<open>auto simp: noDeploymentUIDs_def Pods_other_handlers Pods_GetPod
        split: if_splits\<close>)
qed

lemma run_invariant:
  "noReplicaSets c \<Longrightarrow> noDeploymentUIDs c \<Longrightarrow> run X c evs = Some c' \<Longrightarrow>
     noReplicaSets c' \<and> noDeploymentUIDs c'"
proof (induction evs arbitrary: c)
  case Nil
  then show ?case by simp
next
  case (Cons ev evs)
  from Cons.prems(3) obtain c1 where d: "deliver X c ev = Some c1" and r: "run X c1 evs = Some c'"
    by (auto split: option.splits)
  from deliver_noReplicaSets[OF Cons.prems(1) d] deliver_noDeploymentUIDs[OF Cons.prems(1,2) d]
  show ?case using Cons.IH[OF _ _ r] by blast
qed

lemma New_invariant:
  assumes "\<not> ExtractionRules.DeploymentName rules" "\<not> ExtractionRules.DeploymentUID rules"
    "New deps rules associations exclude w = Inr c"
  shows "noReplicaSets c \<and> noDeploymentUIDs c"
  using assms
  by (auto simp: New_def Let_def noReplicaSets_def noDeploymentUIDs_def
        split: option.splits if_splits)

lemma andThen_preserves:
  assumes "andThen r f = Some (c', e')"
    "\<And>c1 e1. r = Some (c1, e1) \<Longrightarrow> Q c1"
    "\<And>c1 c2 e2. Q c1 \<Longrightarrow> f c1 = Some (c2, e2) \<Longrightarrow> Q c2"
  shows "Q c'"
proof (cases r)
  case None
  with assms(1) show ?thesis by (simp add: andThen_def)
next
  case (Some a)
  obtain c1 e1 where a: "a = (c1, e1)" by (cases a)
  show ?thesis
  proof (cases e1)
    case None
    with Some a assms(1) have "f c1 = Some (c', e')" by (simp add: andThen_def)
    with assms(2)[of c1 e1] assms(3)[of c1 c' e'] Some a show ?thesis by blast
  next
    case (Some err)
    with \<open>r = Some a\<close> a assms(1) have "c' = c1" by (simp add: andThen_def)
    with assms(2)[of c1 e1] \<open>r = Some a\<close> a show ?thesis by blast
  qed
qed

lemma start_steps:
  "startNamespace deps c1 = Some (c2, e) \<Longrightarrow> startKeeps c1 c2"
  "startNode deps c1 = Some (c2, e) \<Longrightarrow> startKeeps c1 c2"
  "startDeployment deps c1 = Some (c2, e) \<Longrightarrow> startKeeps c1 c2"
  "startStatefulSet deps c1 = Some (c2, e) \<Longrightarrow> startKeeps c1 c2"
  "startPod deps c1 = Some (c2, e) \<Longrightarrow> startKeeps c1 c2"
  "waitForSync deps c1 = Some (c2, e) \<Longrightarrow> startKeeps c1 c2"
  by (auto simp: startNamespace_def startNode_def startDeployment_def startStatefulSet_def
        startPod_def waitForSync_def startKeeps_def sameReplicaSets_def
        split: option.splits if_splits prod.splits)

lemma startReplicaSet_off:
  "noReplicaSets c \<Longrightarrow> startReplicaSet deps c = Some (c1, e) \<Longrightarrow> c1 = c"
  by (simp add: startReplicaSet_def noReplicaSets_def)

lemma startKeeps_trans: "startKeeps a b \<Longrightarrow> startKeeps b c \<Longrightarrow> startKeeps a c"
  by (simp add: startKeeps_def sameReplicaSets_def)

lemma andThen_keeps:
  assumes "andThen r f = Some (c', e')"
    "\<And>c1 e1. r = Some (c1, e1) \<Longrightarrow> startKeeps c c1"
    "\<And>c1 c2 e2. f c1 = Some (c2, e2) \<Longrightarrow> startKeeps c1 c2"
  shows "startKeeps c c'"
proof (rule andThen_preserves[OF assms(1)])
  show "startKeeps c c1" if "r = Some (c1, e1)" for c1 e1
    using that by (rule assms(2))
  show "startKeeps c c2" if "startKeeps c c1" "f c1 = Some (c2, e2)" for c1 c2 e2
    using that(1) assms(3)[OF that(2)] by (rule startKeeps_trans)
qed

lemma Start_keeps:
  assumes "noReplicaSets c" "Start deps c = Some (c', err)"
  shows "startKeeps c c'"
proof -
  have 0: "startKeeps c c1" if "startReplicaSet deps c = Some (c1, e1)" for c1 e1
    using startReplicaSet_off[OF assms(1) that] by (simp add: startKeeps_def sameReplicaSets_def)
  have 1: "startKeeps c c1"
    if "andThen (startReplicaSet deps c) (startNamespace deps) = Some (c1, e1)" for c1 e1
    using that 0 start_steps(1) by (rule andThen_keeps)
  have 2: "startKeeps c c1"
    if "andThen (andThen (startReplicaSet deps c) (startNamespace deps)) (startNode deps)
          = Some (c1, e1)" for c1 e1
    using that 1 start_steps(2) by (rule andThen_keeps)
  have 3: "startKeeps c c1"
    if "andThen (andThen (andThen (startReplicaSet deps c) (startNamespace deps)) (startNode deps))
          (startDeployment deps) = Some (c1, e1)" for c1 e1
    using that 2 start_steps(3) by (rule andThen_keeps)
  have 4: "startKeeps c c1"
    if "andThen (andThen (andThen (andThen (startReplicaSet deps c) (startNamespace deps))
          (startNode deps)) (startDeployment deps)) (startStatefulSet deps) = Some (c1, e1)" for c1 e1
    using that 3 start_steps(4) by (rule andThen_keeps)
  have 5: "startKeeps c c1"
    if "andThen (andThen (andThen (andThen (andThen (startReplicaSet deps c) (startNamespace deps))
          (startNode deps)) (startDeployment deps)) (startStatefulSet deps)) (startPod deps)
          = Some (c1, e1)" for c1 e1
    using that 4 start_steps(5) by (rule andThen_keeps)
  show ?thesis
    using assms(2)[unfolded Start_def] 5 start_steps(6) by (rule andThen_keeps)
qed

lemma Start_invariant:
  assumes "noReplicaSets c" "noDeploymentUIDs c" "Start deps c = Some (c', err)"
  shows "noReplicaSets c' \<and> noDeploymentUIDs c'"
  using Start_keeps[OF assms(1,3)] assms(1,2)
  by (simp add: startKeeps_def sameReplicaSets_def noReplicaSets_def noDeploymentUIDs_def)

subsection \<open>Adding and updating pods\<close>




subsection \<open>The eviction drain\<close>

text \<open>
  Claim C2. A drain scan removes the entry under an identifier only through a request it applies
  that carries this identifier and the name of the stored record: the entry is gone after the
  scan exactly when there is such a request among the applied ones, and is unchanged otherwise. In
  particular a record whose name differs from the name in every queued request for its
  identifier (the identifier was given to another pod) survives the scan.
\<close>

theorem deleteTick_name_guard:
  "Pods (deleteTick now gracePeriod c) i =
     (case Pods c i of
        None \<Rightarrow> None
      | Some p \<Rightarrow>
          if \<exists>d \<in> set (toDelete now gracePeriod (deleteQueue c)). id' d = i \<and> podName d = Pod.Name p
          then None else Some p) \<and>
   (Pods c i = Some p \<and> (\<forall>d \<in> set (deleteQueue c). id' d = i \<longrightarrow> podName d \<noteq> Pod.Name p)
      \<longrightarrow> Pods (deleteTick now gracePeriod c) i = Some p)"
proof -
  have "set (toDelete now gracePeriod (deleteQueue c)) \<subseteq> set (deleteQueue c)"
    by (simp add: toDelete_def set_take_subset)
  then show ?thesis
    by (auto simp: Pods_deleteTick deletePods_char split: option.splits)
qed

text \<open>
  The pod \<open>web1\<close> is added and deleted; its address goes to the pod \<open>api2\<close>; the scan at time
  10 applies the requests of \<open>web1\<close>, queued at time 0, and leaves the record of \<open>api2\<close>.
\<close>

theorem deleteTick_name_guard_witness:
  "podAfter exX exClient
     [PodAdd (PodObj web1), PodDelete (PodObj web1) (\<lambda>k. 0), PodAdd (PodObj api2)] connID
     = Some (exPod api2) \<and>
   queueAfter exX exClient
     [PodAdd (PodObj web1), PodDelete (PodObj web1) (\<lambda>k. 0), PodAdd (PodObj api2)]
     = [\<lparr>id' = uidID, podName = ''web-1'', ts = 0\<rparr>, \<lparr>id' = uidID, podName = ''web-1'', ts = 0\<rparr>,
        \<lparr>id' = connID, podName = ''web-1'', ts = 0\<rparr>, \<lparr>id' = ipID, podName = ''web-1'', ts = 0\<rparr>] \<and>
   Pod.Name (exPod api2) = ''api-2'' \<and>
   Pods (deleteTick 10 5 (the (run exX exClient
     [PodAdd (PodObj web1), PodDelete (PodObj web1) (\<lambda>k. 0), PodAdd (PodObj api2)]))) connID
     = Some (exPod api2)"
  using deleteTick_name_guard[of 10 5 "the (run exX exClient
     [PodAdd (PodObj web1), PodDelete (PodObj web1) (\<lambda>k. 0), PodAdd (PodObj api2)])" connID "exPod api2"]
  by (simp add: run_defs)

text \<open>
  Claim C3, as amended. A scan at time \<open>now\<close> takes the longest prefix of the queue whose
  requests have their grace period behind them (\<open>ts + gracePeriod \<le> now\<close>) and applies these:
  no request is applied before its time plus the grace period, and a younger request stays in
  the queue. The entry under an identifier is untouched by the scan when every queued request
  for that identifier is younger than the grace period. In a queue ordered by time, a request
  whose grace period is over is applied, and after the scan the table holds no record of the
  request's pod name under its identifier.
\<close>

theorem deleteTick_grace_period:
  "toDelete now g (deleteQueue c) = takeWhile (\<lambda>d. ts d + g \<le> now) (deleteQueue c) \<and>
   deleteQueue (deleteTick now g c) = dropWhile (\<lambda>d. ts d + g \<le> now) (deleteQueue c) \<and>
   (\<forall>d \<in> set (toDelete now g (deleteQueue c)). ts d + g \<le> now) \<and>
   (\<forall>d \<in> set (deleteQueue c). now < ts d + g \<longrightarrow> d \<in> set (deleteQueue (deleteTick now g c))) \<and>
   ((\<forall>d \<in> set (deleteQueue c). id' d = i \<longrightarrow> now < ts d + g) \<longrightarrow>
      Pods (deleteTick now g c) i = Pods c i) \<and>
   (\<forall>d \<in> set (deleteQueue c). sorted (map ts (deleteQueue c)) \<and> ts d + g \<le> now \<longrightarrow>
      d \<in> set (toDelete now g (deleteQueue c)) \<and>
      (\<forall>p. Pods (deleteTick now g c) (id' d) = Some p \<longrightarrow> Pod.Name p \<noteq> podName d))"
  using toDelete_takeWhile[of now g "deleteQueue c"] deleteQueue_deleteTick[of now g c]
    toDelete_old[of _ now g "deleteQueue c"] young_stays[of _ c now g]
    no_old_request_kept[of c i now g] sorted_old_applied[of "deleteQueue c" _ g now]
    applied_gone[of _ now g c]
  by blast

theorem deleteTick_grace_period_witness:
  "deleteQueue exDeleted =
     [\<lparr>id' = uidID, podName = ''web-1'', ts = 0\<rparr>, \<lparr>id' = uidID, podName = ''web-1'', ts = 0\<rparr>,
      \<lparr>id' = connID, podName = ''web-1'', ts = 0\<rparr>, \<lparr>id' = ipID, podName = ''web-1'', ts = 0\<rparr>] \<and>
   sorted (map ts (deleteQueue exDeleted)) \<and>
   Pods exDeleted connID = Some (exPod web1) \<and>
   toDelete 4 5 (deleteQueue exDeleted) = [] \<and>
   Pods (deleteTick 4 5 exDeleted) connID = Some (exPod web1) \<and>
   toDelete 5 5 (deleteQueue exDeleted) = deleteQueue exDeleted \<and>
   Pods (deleteTick 5 5 exDeleted) connID = None"
  using deleteTick_grace_period[of 4 5 exDeleted connID]
    deleteTick_grace_period[of 5 5 exDeleted connID]
  by (simp add: run_defs)

text \<open>
  The claim as stated fails when an older request for the same identifier and name is in the
  queue. The pod \<open>web1\<close> is deleted at time 0 and recreated as \<open>web1c\<close>, with the same name and
  address; \<open>web1c\<close> is deleted at time 3. The scan at time 5 applies the request of time 0 and
  removes the entry of \<open>web1c\<close>, three time units before the grace period of its own request
  ends.
\<close>

theorem deleteTick_grace_period_counterexample:
  "\<lparr>id' = connID, podName = ''web-1'', ts = 3\<rparr> \<in> set (queueAfter exX exClient
      [PodAdd (PodObj web1), PodDelete (PodObj web1) (\<lambda>k. 0),
       PodAdd (PodObj web1c), PodDelete (PodObj web1c) (\<lambda>k. 3)]) \<and>
   podAfter exX exClient
      [PodAdd (PodObj web1), PodDelete (PodObj web1) (\<lambda>k. 0),
       PodAdd (PodObj web1c), PodDelete (PodObj web1c) (\<lambda>k. 3)] connID = Some (exPod web1c) \<and>
   defaultPodDeleteGracePeriod exX = 5 \<and>
   podAfter exX exClient
      [PodAdd (PodObj web1), PodDelete (PodObj web1) (\<lambda>k. 0),
       PodAdd (PodObj web1c), PodDelete (PodObj web1c) (\<lambda>k. 3), TimerFired 5] connID = None"
  by (simp add: run_defs)

text \<open>
  Claim C4, as amended. The identifiers \<^verbatim>\<open>getIdentifiersFromAssoc\<close> returns are those of
  the associations followed by the fallbacks: one by pod UID when the UID is not empty, and two
  by address when the address is not empty and the pod is not on the host network, the
  connection identifier and the resource-attribute identifier \<open>k8s.pod.ip\<close>. After
  \<^verbatim>\<open>addOrUpdatePod\<close> on an empty table, for a pod that is not ignored, \<^verbatim>\<open>GetPod\<close> on each
  of the identifiers returns the new record.
\<close>

theorem fallback_identifiers:
  "(\<forall>ids. getIdentifiersFromAssoc X c pod = Some ids \<longrightarrow>
      (\<exists>rules. assocLoop (PodIdentifierMaxLength X) pod (Associations c) [] = Some rules \<and>
         ids = rules @ podUIDFallback (PodIdentifierMaxLength X) pod
                     @ addressFallback (PodIdentifierMaxLength X) pod)) \<and>
   podUIDFallback (PodIdentifierMaxLength X) pod =
     (if PodUID pod \<noteq> [] then [uidIdentifier X (PodUID pod)] else []) \<and>
   addressFallback (PodIdentifierMaxLength X) pod =
     (if Address pod \<noteq> [] \<and> \<not> HostNetwork pod
      then [PodIdentifier1 (PodIdentifierMaxLength X) (PodIdentifierAttributeFromConnection (Address pod)),
            PodIdentifier1 (PodIdentifierMaxLength X)
              (PodIdentifierAttributeFromResourceAttribute K8sIPLabelName (Address pod))]
      else []) \<and>
   (\<forall>c' ids. addOrUpdatePod X c apod = Some c' \<and>
       getIdentifiersFromAssoc X c (podFromAPI X c apod) = Some ids \<and>
       Pods c = Map.empty \<and> \<not> shouldIgnorePod X c apod \<longrightarrow>
      (\<forall>i \<in> set ids. fst (GetPod c' i) = Some (podFromAPI X c apod)))"
proof -
  have 1: "\<exists>rules. assocLoop (PodIdentifierMaxLength X) pod (Associations c) [] = Some rules \<and>
         ids = rules @ podUIDFallback (PodIdentifierMaxLength X) pod
                     @ addressFallback (PodIdentifierMaxLength X) pod"
    if "getIdentifiersFromAssoc X c pod = Some ids" for ids
    using that
    by (auto simp: getIdentifiersFromAssoc_def identifiersFromAssoc_def split: option.splits)
  have 2: "podUIDFallback (PodIdentifierMaxLength X) pod =
     (if PodUID pod \<noteq> [] then [uidIdentifier X (PodUID pod)] else [])"
    by (simp add: podUIDFallback_def uidIdentifier_def)
  have 3: "addressFallback (PodIdentifierMaxLength X) pod =
     (if Address pod \<noteq> [] \<and> \<not> HostNetwork pod
      then [PodIdentifier1 (PodIdentifierMaxLength X) (PodIdentifierAttributeFromConnection (Address pod)),
            PodIdentifier1 (PodIdentifierMaxLength X)
              (PodIdentifierAttributeFromResourceAttribute K8sIPLabelName (Address pod))]
      else [])"
    by (simp add: addressFallback_def)
  have 4: "fst (GetPod c' i) = Some (podFromAPI X c apod)"
    if a: "addOrUpdatePod X c apod = Some c'"
      and ids: "getIdentifiersFromAssoc X c (podFromAPI X c apod) = Some ids"
      and e: "Pods c = Map.empty" and ni: "\<not> shouldIgnorePod X c apod" and i: "i \<in> set ids"
    for c' ids i
  proof -
    from addOrUpdatePod_char[OF a] ids obtain pods where
      c': "c' = c\<lparr>Pods := pods\<rparr>"
      and ch: "\<forall>i. pods i =
              (if i \<in> set ids \<and> \<not> (\<exists>q. Pods c i = Some q \<and> Before (Status_StartTime apod) (Pod.StartTime q))
               then Some (podFromAPI X c apod) else Pods c i)"
      by auto
    from ch i e have "pods i = Some (podFromAPI X c apod)" by simp
    with c' have "Pods c' i = Some (podFromAPI X c apod)" by simp
    moreover from ni have "\<not> Ignore (podFromAPI X c apod)" by (simp add: podFromAPI_fields)
    ultimately show ?thesis by (simp add: GetPod_def)
  qed
  from 1 2 3 4 show ?thesis by blast
qed

text \<open>
  The example of the spec: the pod \<open>web1\<close> (UID \<open>u1\<close>, address \<open>10.0.0.5\<close>, containers
  \<open>c1\<close> and \<open>c2\<close>) with the rule \<open>[resource attribute k8s.pod.uid]\<close>.
\<close>

theorem fallback_identifiers_witness:
  "getIdentifiersFromAssoc exX exClient (exPod web1) = Some [uidID, uidID, connID, ipID] \<and>
   assocLoop 4 (exPod web1) (Associations exClient) [] = Some [uidID] \<and>
   podUIDFallback 4 (exPod web1) = [uidID] \<and>
   addressFallback 4 (exPod web1) = [connID, ipID] \<and>
   addOrUpdatePod exX exClient web1 \<noteq> None \<and>
   fst (GetPod (the (addOrUpdatePod exX exClient web1)) uidID) = Some (exPod web1) \<and>
   fst (GetPod (the (addOrUpdatePod exX exClient web1)) connID) = Some (exPod web1) \<and>
   fst (GetPod (the (addOrUpdatePod exX exClient web1)) ipID) = Some (exPod web1)"
  using fallback_identifiers[of exX exClient "exPod web1" web1]
  by (simp add: run_defs)

text \<open>
  The claim as stated fails on its own example: three fallback identifiers are appended, not
  two; the list has four entries; the identifier of the rule is the pod-UID fallback itself, and
  the third of the three different identifiers is the \<open>k8s.pod.ip\<close> one, which the claim does
  not name.
\<close>

theorem fallback_identifiers_counterexample:
  "getIdentifiersFromAssoc exX exClient (exPod web1) = Some [uidID, uidID, connID, ipID] \<and>
   assocLoop 4 (exPod web1) (Associations exClient) [] = Some [uidID] \<and>
   podUIDFallback 4 (exPod web1) @ addressFallback 4 (exPod web1) = [uidID, connID, ipID] \<and>
   ipID \<noteq> uidID \<and> ipID \<noteq> connID \<and> uidID \<noteq> connID"
  by (simp add: run_defs)

subsection \<open>The identifiers of a pod\<close>

text \<open>
  Claim C5. For a pod record with the host-network flag set, no identifier that
  \<^verbatim>\<open>getIdentifiersFromAssoc\<close> returns has an attribute taken from the connection: every
  association with a connection source is skipped (it adds no identifier), and the two
  address-based fallback identifiers are not appended.
\<close>

theorem host_network_no_connection_identifier:
  assumes "HostNetwork pod" "getIdentifiersFromAssoc X c pod = Some ids"
  shows "(\<forall>i \<in> set ids. noConn i) \<and>
         addressFallback (PodIdentifierMaxLength X) pod = [] \<and>
         (\<forall>a \<in> set (Associations c). (\<exists>s \<in> set (Sources a). From s = ConnectionSource) \<longrightarrow>
            assocIdentifiers (PodIdentifierMaxLength X) pod a = Some [])"
proof -
  let ?n = "PodIdentifierMaxLength X"
  from assms(2) have ids: "identifiersFromAssoc ?n (Associations c) pod = Some ids"
    by (simp add: getIdentifiersFromAssoc_def)
  have 1: "\<forall>i \<in> set ids. noConn i"
    using identifiersFromAssoc_noConn[OF assms(1) ids] by blast
  have 2: "addressFallback ?n pod = []"
    using assms(1) by (simp add: addressFallback_def)
  have 3: "assocIdentifiers ?n pod a = Some []"
    if a: "a \<in> set (Associations c)" and s: "\<exists>s \<in> set (Sources a). From s = ConnectionSource" for a
  proof -
    from identifiersFromAssoc_each[OF ids a] obtain new where
      new: "assocIdentifiers ?n pod a = Some new" by blast
    from assms(1) have "HostNetwork pod \<or> Address pod = []" by simp
    from assocIdentifiers_conn_skipped[OF this s new] new show ?thesis by simp
  qed
  from 1 2 3 show ?thesis by blast
qed

text \<open>
  On the host network the pod \<open>web1\<close> keeps its UID identifier only (from the rule and from
  the fallback); off it, the connection rule and the two address fallbacks add theirs.
\<close>

theorem host_network_no_connection_identifier_witness:
  "HostNetwork (exPod web1h) \<and>
   getIdentifiersFromAssoc exX exClientConn (exPod web1h) = Some [uidID, uidID] \<and>
   noConn uidID \<and>
   addressFallback 4 (exPod web1h) = [] \<and>
   assocIdentifiers 4 (exPod web1h) \<lparr>Sources = [\<lparr>From = ConnectionSource, AssociationSource.Name = []\<rparr>]\<rparr>
     = Some [] \<and>
   getIdentifiersFromAssoc exX exClientConn (exPod web1) = Some [connID, uidID, uidID, connID, ipID]"
  using host_network_no_connection_identifier[of "exPod web1h" exX exClientConn "[uidID, uidID]"]
  by (simp add: run_defs noConn_def)

text \<open>
  Claim C6, as amended. An association with a container-ID source that is not skipped for the
  pod yields one identifier for each container ID of the pod, in the order of the container IDs:
  the identifier of the rule (\<open>ruleIdentifier\<close>) with the container-ID attribute at the
  position of the last container-ID source of the rule. So the identifiers are the same at every
  other position, they are as many as the container IDs, and they differ from one another. A
  skipped association yields none. The resolver returns for an association that has no more
  sources than an identifier has places.
\<close>

theorem container_rule_fan_out:
  "(\<forall>new. assocIdentifiers n pod assoc = Some new \<and> (\<exists>s \<in> set (Sources assoc). isContainerIDSource s) \<longrightarrow>
      (ruleSkipped pod False (Sources assoc) \<longrightarrow> new = []) \<and>
      (\<not> ruleSkipped pod False (Sources assoc) \<longrightarrow>
         length new = length (ByID (Containers pod)) \<and>
         (distinct (map fst (ByID (Containers pod))) \<longrightarrow> distinct new) \<and>
         (\<exists>j. j < length (Sources assoc) \<and> j < n \<and> isContainerIDSource (Sources assoc ! j) \<and>
            (\<forall>l. j < l \<and> l < length (Sources assoc) \<longrightarrow> \<not> isContainerIDSource (Sources assoc ! l)) \<and>
            length (ruleIdentifier n pod (Sources assoc)) = n \<and>
            new = map (\<lambda>cID. (ruleIdentifier n pod (Sources assoc))[j := containerIDAttribute cID])
                      (map fst (ByID (Containers pod)))))) \<and>
   (length (Sources assoc) \<le> n \<longrightarrow> assocIdentifiers n pod assoc \<noteq> None)"
proof -
  have 1: "(ruleSkipped pod False (Sources assoc) \<longrightarrow> new = []) \<and>
      (\<not> ruleSkipped pod False (Sources assoc) \<longrightarrow>
         length new = length (ByID (Containers pod)) \<and>
         (distinct (map fst (ByID (Containers pod))) \<longrightarrow> distinct new) \<and>
         (\<exists>j. j < length (Sources assoc) \<and> j < n \<and> isContainerIDSource (Sources assoc ! j) \<and>
            (\<forall>l. j < l \<and> l < length (Sources assoc) \<longrightarrow> \<not> isContainerIDSource (Sources assoc ! l)) \<and>
            length (ruleIdentifier n pod (Sources assoc)) = n \<and>
            new = map (\<lambda>cID. (ruleIdentifier n pod (Sources assoc))[j := containerIDAttribute cID])
                      (map fst (ByID (Containers pod)))))"
    if new: "assocIdentifiers n pod assoc = Some new"
      and s: "\<exists>s \<in> set (Sources assoc). isContainerIDSource s" for new
  proof (cases "ruleSkipped pod False (Sources assoc)")
    case True
    with assocIdentifiers_containerID[OF new s] show ?thesis by simp
  next
    case False
    from assocIdentifiers_fan_out[OF new s False] obtain j where
      j: "j < length (Sources assoc)" "j < n" "isContainerIDSource (Sources assoc ! j)"
      and last: "\<forall>l. j < l \<and> l < length (Sources assoc) \<longrightarrow> \<not> isContainerIDSource (Sources assoc ! l)"
      and eq: "new = map (\<lambda>cID. (ruleIdentifier n pod (Sources assoc))[j := containerIDAttribute cID])
                         (map fst (ByID (Containers pod)))"
      by blast
    have len: "length (ruleIdentifier n pod (Sources assoc)) = n"
      by (simp add: ruleIdentifier_def)
    from eq have l: "length new = length (ByID (Containers pod))" by simp
    from j(2) len have "j < length (ruleIdentifier n pod (Sources assoc))" by simp
    from fan_out_distinct[OF this] eq
    have d: "distinct (map fst (ByID (Containers pod))) \<longrightarrow> distinct new" by blast
    from False l d j last len eq show ?thesis by blast
  qed
  have 2: "length (Sources assoc) \<le> n \<longrightarrow> assocIdentifiers n pod assoc \<noteq> None"
    using assocIdentifiers_total[of assoc n pod] by blast
  from 1 2 show ?thesis by blast
qed

text \<open>
  The association \<open>[k8s.pod.name, container.id]\<close> on the pod \<open>web1\<close>, with the containers
  \<open>c1\<close> and \<open>c2\<close>; and the association \<open>[container.id, container.id]\<close>, where the
  container ID goes to the second position and the first keeps the empty value.
\<close>

theorem container_rule_fan_out_witness:
  "isContainerIDSource (Sources nameAndContainer ! 1) \<and>
   \<not> ruleSkipped (exPod web1) False (Sources nameAndContainer) \<and>
   map fst (ByID (Containers (exPod web1))) = [''c1'', ''c2''] \<and>
   ruleIdentifier 4 (exPod web1) (Sources nameAndContainer) =
     [PodIdentifierAttributeFromResourceAttribute K8SPodNameKey ''web-1'',
      containerIDAttribute [], zeroAttribute, zeroAttribute] \<and>
   assocIdentifiers 4 (exPod web1) nameAndContainer =
     Some [[PodIdentifierAttributeFromResourceAttribute K8SPodNameKey ''web-1'',
            containerIDAttribute ''c1'', zeroAttribute, zeroAttribute],
           [PodIdentifierAttributeFromResourceAttribute K8SPodNameKey ''web-1'',
            containerIDAttribute ''c2'', zeroAttribute, zeroAttribute]] \<and>
   isContainerIDSource (Sources twoContainerIDs ! 0) \<and>
   isContainerIDSource (Sources twoContainerIDs ! 1) \<and>
   \<not> ruleSkipped (exPod web1) False (Sources twoContainerIDs) \<and>
   assocIdentifiers 4 (exPod web1) twoContainerIDs =
     Some [[containerIDAttribute [], containerIDAttribute ''c1'', zeroAttribute, zeroAttribute],
           [containerIDAttribute [], containerIDAttribute ''c2'', zeroAttribute, zeroAttribute]]"
  using container_rule_fan_out[of 4 "exPod web1" nameAndContainer]
    container_rule_fan_out[of 4 "exPod web1" twoContainerIDs]
  by (simp add: run_defs sourceSkips_def isContainerIDSource_def ruleIdentifier_def
        sourceAttribute_def)

text \<open>
  The claim as stated fails for a skipped association: \<open>[connection, container.id]\<close> on the
  host-network pod \<open>web1h\<close>, which has two container IDs, yields no identifier.
\<close>

theorem container_rule_fan_out_counterexample:
  "isContainerIDSource (Sources connAndContainer ! 1) \<and>
   map fst (ByID (Containers (exPod web1h))) = [''c1'', ''c2''] \<and>
   assocIdentifiers 4 (exPod web1h) connAndContainer = Some []"
  by (simp add: run_defs isContainerIDSource_def)

subsection \<open>Lookup\<close>

text \<open>
  Claim C7. \<^verbatim>\<open>GetPod\<close> returns a record, with \<^verbatim>\<open>true\<close>, exactly when the pod table maps
  the identifier to that record and the record's ignore flag is unset. When the stored record is
  flagged ignore, it returns \<^verbatim>\<open>(nil, false)\<close> and the client is untouched; in every case the
  pod table is left as it was.
\<close>

theorem GetPod_hides_ignored:
  "((fst (GetPod c i) = Some pod) = (Pods c i = Some pod \<and> \<not> Ignore pod)) \<and>
   (Pods c i = Some p \<and> Ignore p \<longrightarrow> GetPod c i = (None, c)) \<and>
   Pods (snd (GetPod c i)) = Pods c"
  by (auto simp: GetPod_def counterAdd_def split: option.splits)

theorem GetPod_hides_ignored_witness:
  "Pods (exClient\<lparr>Pods := [connID \<mapsto> exPod web1b]\<rparr>) connID = Some (exPod web1b) \<and>
   Ignore (exPod web1b) \<and>
   GetPod (exClient\<lparr>Pods := [connID \<mapsto> exPod web1b]\<rparr>) connID =
     (None, exClient\<lparr>Pods := [connID \<mapsto> exPod web1b]\<rparr>)"
  using GetPod_hides_ignored[of "exClient\<lparr>Pods := [connID \<mapsto> exPod web1b]\<rparr>" connID
          "exPod web1b" "exPod web1b"]
  by (simp add: exPod_def podFromAPI_fields shouldIgnorePod_def exX_def web1b_def)

subsection \<open>Delete notifications\<close>

text \<open>
  Claim C8. Handling a pod delete notification leaves the pod table as it is: \<^verbatim>\<open>forgetPod\<close>
  only appends to the delete queue, for each identifier of the deleted pod under which the table
  shows a record of the pod's name (not ignored), one request with the identifier, the pod's
  name and the clock reading of that moment. No notification and no lookup removes a key of the
  pod table: of all that can happen to a client, only the scan of \<^verbatim>\<open>deleteLoop\<close> can.
  \<^verbatim>\<open>forgetPod\<close> returns when no association has more sources than an identifier has places.
\<close>

theorem forgetPod_only_queues:
  "(\<forall>c'. handlePodDelete X clock c ob = Some c' \<longrightarrow> Pods c' = Pods c) \<and>
   (\<forall>c'. forgetPod X clock c pod = Some c' \<longrightarrow>
      Pods c' = Pods c \<and>
      (\<exists>ids. getIdentifiersFromAssoc X c (podFromAPI X c pod) = Some ids \<and>
         deleteQueue c' =
           deleteQueue c @ expectedRequests clock (ObjectMeta.Name pod) 0 ids (Pods c))) \<and>
   (\<forall>c'. \<not> isTimerFired ev \<and> deliver X c ev = Some c' \<longrightarrow> dom (Pods c) \<subseteq> dom (Pods c')) \<and>
   ((\<forall>a \<in> set (Associations c). length (Sources a) \<le> PodIdentifierMaxLength X) \<longrightarrow>
      forgetPod X clock c pod \<noteq> None)"
  using Pods_handlePodDelete[of X clock c ob] Pods_forgetPod[of X clock c pod]
    deleteQueue_forgetPod[of X clock c pod] dom_deliver[of ev X c]
    forgetPod_total[of c X clock pod]
  by blast

theorem forgetPod_only_queues_witness:
  "handlePodDelete exX (\<lambda>k. 7) exAdded (PodObj web1) \<noteq> None \<and>
   Pods (the (handlePodDelete exX (\<lambda>k. 7) exAdded (PodObj web1))) = Pods exAdded \<and>
   forgetPod exX (\<lambda>k. 7) exAdded web1 \<noteq> None \<and>
   Pods (the (forgetPod exX (\<lambda>k. 7) exAdded web1)) = Pods exAdded \<and>
   Pods exAdded connID = Some (exPod web1) \<and>
   deleteQueue (the (forgetPod exX (\<lambda>k. 7) exAdded web1)) =
     [\<lparr>id' = uidID, podName = ''web-1'', ts = 7\<rparr>, \<lparr>id' = uidID, podName = ''web-1'', ts = 7\<rparr>,
      \<lparr>id' = connID, podName = ''web-1'', ts = 7\<rparr>, \<lparr>id' = ipID, podName = ''web-1'', ts = 7\<rparr>] \<and>
   deliver exX exAdded (PodAdd (PodObj api2)) \<noteq> None \<and>
   dom (Pods exAdded) \<subseteq> dom (Pods (the (deliver exX exAdded (PodAdd (PodObj api2)))))"
  using forgetPod_only_queues[of exX "\<lambda>k. 7" exAdded "PodObj web1" web1 "PodAdd (PodObj api2)"]
  by (simp add: run_defs)

subsection \<open>Deployment rules and the replicaset informer\<close>

text \<open>
  Claim C9. With neither the deployment-name nor the deployment-UID rule, \<^verbatim>\<open>New\<close> creates no
  replicaset informer and \<^verbatim>\<open>Start\<close> starts none: through every run of the client, before
  and after \<^verbatim>\<open>Start\<close>, the informer stays nil, no replicaset notification reaches a handler and
  the replicaset table stays empty. So every record \<^verbatim>\<open>podFromAPI\<close> builds has an empty
  \<^verbatim>\<open>DeploymentUID\<close>, whatever owner references the pod has, and so has every record in the
  pod table.
\<close>

theorem no_deployment_rule_no_replicasets:
  assumes "\<not> ExtractionRules.DeploymentName rules" "\<not> ExtractionRules.DeploymentUID rules"
    "New deps rules associations exclude w = Inr c0" "run X c0 evs0 = Some c0'"
    "Start sdeps c0' = Some (c1, err)" "run X c1 evs = Some c"
  shows "replicasetInformer c0 = None \<and> replicasetInformer c1 = None \<and>
         replicasetInformer c = None \<and> \<not> running (replicasetInformer c) \<and>
         ReplicaSets c = Map.empty \<and>
         Pod.DeploymentUID (podFromAPI X c pod) = [] \<and>
         (\<forall>i p. Pods c i = Some p \<longrightarrow> Pod.DeploymentUID p = [])"
proof -
  from New_invariant[OF assms(1,2,3)] have i0: "noReplicaSets c0" "noDeploymentUIDs c0" by simp_all
  from run_invariant[OF i0 assms(4)] have i0': "noReplicaSets c0'" "noDeploymentUIDs c0'" by simp_all
  from Start_invariant[OF i0' assms(5)] have i1: "noReplicaSets c1" "noDeploymentUIDs c1" by simp_all
  from run_invariant[OF i1 assms(6)] have i: "noReplicaSets c" "noDeploymentUIDs c" by simp_all
  from i(1) have "ReplicaSets c = Map.empty" by (simp add: noReplicaSets_def)
  then have "Pod.DeploymentUID (podFromAPI X c pod) = []" by (rule podFromAPI_noReplicaSets)
  with i0(1) i1(1) i show ?thesis
    by (simp add: noReplicaSets_def noDeploymentUIDs_def running_def)
qed

text \<open>
  The example client has no deployment rule. The pod \<open>web1\<close> is owned by the replicaset
  \<open>rs1\<close>, which a deployment controls; the notification of \<open>rs1\<close> reaches no handler, and
  the record of \<open>web1\<close> names no deployment.
\<close>

theorem no_deployment_rule_no_replicasets_witness:
  "\<not> ExtractionRules.DeploymentName exRules \<and> \<not> ExtractionRules.DeploymentUID exRules \<and>
   New exNewDeps exRules exAssociations \<lparr>Excludes.Pods = []\<rparr> False = Inr exNew \<and>
   run exX exNew [ReplicaSetAdd (ReplicaSetObj rs1)] = Some exNew \<and>
   Start exStartDeps exNew = Some (exClient, None) \<and>
   run exX exClient [ReplicaSetAdd (ReplicaSetObj rs1), PodAdd (PodObj web1)] \<noteq> None \<and>
   getPodReplicaSetUID web1 = ''rs1'' \<and>
   replicasetInformer
     (the (run exX exClient [ReplicaSetAdd (ReplicaSetObj rs1), PodAdd (PodObj web1)])) = None \<and>
   ReplicaSets
     (the (run exX exClient [ReplicaSetAdd (ReplicaSetObj rs1), PodAdd (PodObj web1)])) ''rs1'' = None \<and>
   Pod.DeploymentUID (exPod web1) = [] \<and>
   podAfter exX exClient [ReplicaSetAdd (ReplicaSetObj rs1), PodAdd (PodObj web1)] connID
     = Some (exPod web1)"
  using no_deployment_rule_no_replicasets[of exRules exNewDeps exAssociations
          "\<lparr>Excludes.Pods = []\<rparr>" False exNew exX
          "[ReplicaSetAdd (ReplicaSetObj rs1)]" exNew exStartDeps exClient None
          "[ReplicaSetAdd (ReplicaSetObj rs1), PodAdd (PodObj web1)]"
          "the (run exX exClient [ReplicaSetAdd (ReplicaSetObj rs1), PodAdd (PodObj web1)])" web1]
  by (simp add: run_defs start_defs)

subsection \<open>Ignored pods and the delete queue\<close>

text \<open>
  Claim C10, as amended. When the stored record under an identifier has the ignore flag set, a
  delete notification queues no request for that identifier: every request for it in the queue
  afterwards was there before. A scan leaves the entry under an identifier as it is when no
  request for that identifier is queued. (The scan itself does not look at the ignore flag.)
\<close>

theorem ignored_not_queued:
  "(\<forall>c'. forgetPod X clock c pod = Some c' \<and> Pods c i = Some p \<and> Ignore p \<longrightarrow>
      (\<forall>d \<in> set (deleteQueue c'). id' d = i \<longrightarrow> d \<in> set (deleteQueue c))) \<and>
   ((\<forall>d \<in> set (deleteQueue c). id' d \<noteq> i) \<longrightarrow> Pods (deleteTick now g c) i = Pods c i)"
proof -
  have 1: "d \<in> set (deleteQueue c)"
    if f: "forgetPod X clock c pod = Some c'" and p: "Pods c i = Some p" "Ignore p"
      and d: "d \<in> set (deleteQueue c')" "id' d = i" for c' d
  proof (rule ccontr)
    assume nd: "d \<notin> set (deleteQueue c)"
    from deleteQueue_forgetPod[OF f] obtain ids where
      "deleteQueue c' = deleteQueue c @ expectedRequests clock (ObjectMeta.Name pod) 0 ids (Pods c)"
      by blast
    with d(1) nd have "d \<in> set (expectedRequests clock (ObjectMeta.Name pod) 0 ids (Pods c))"
      by simp
    from expectedRequests_mem[OF this] d(2) p show False by auto
  qed
  have 2: "Pods (deleteTick now g c) i = Pods c i" if "\<forall>d \<in> set (deleteQueue c). id' d \<noteq> i"
    using that no_old_request_kept[of c i now g] by blast
  from 1 2 show ?thesis by blast
qed

theorem ignored_not_queued_witness:
  "forgetPod exX (\<lambda>k. 7) exIgnored web1b \<noteq> None \<and>
   Pods exIgnored connID = Some (exPod web1b) \<and>
   Ignore (exPod web1b) \<and>
   deleteQueue exIgnored = [] \<and>
   deleteQueue (the (forgetPod exX (\<lambda>k. 7) exIgnored web1b)) = [] \<and>
   Pods (deleteTick 10 5 exIgnored) connID = Some (exPod web1b)"
  using ignored_not_queued[of exX "\<lambda>k. 7" exIgnored web1b connID "exPod web1b" 10 5]
  by (simp add: run_defs)

text \<open>
  The claim's last part fails: the scan removes an ignored record through a request queued
  earlier. The pod \<open>web1\<close> is deleted at time 0 and recreated as \<open>web1b\<close>, with the same name
  and address and with the ignore annotation; the scan at time 10 applies the request of
  \<open>web1\<close> and removes the ignored record of \<open>web1b\<close>.
\<close>

theorem ignored_not_queued_counterexample:
  "Ignore (exPod web1b) \<and>
   podAfter exX exClient
      [PodAdd (PodObj web1), PodDelete (PodObj web1) (\<lambda>k. 0), PodAdd (PodObj web1b)] connID
     = Some (exPod web1b) \<and>
   podAfter exX exClient
      [PodAdd (PodObj web1), PodDelete (PodObj web1) (\<lambda>k. 0), PodAdd (PodObj web1b),
       TimerFired 10] connID = None"
  by (simp add: run_defs)


end
